theory Spec2Isabelle
  imports Main "HOL-Library.AList" "HOL-Library.Sublist"
begin

section \<open>Data model\<close>

text \<open>
  Values held in Firestore documents and passed around by the JavaScript code.
  A field that is missing from a document reads as \<open>undefined\<close> in JavaScript;
  the model uses a partial map from field names to values, so \<open>d k = None\<close> is
  \<open>undefined\<close>.
\<close>

datatype jsval = JNull | JBool bool | JStr string | JNum int | JTime int

type_synonym doc = "string \<rightharpoonup> jsval"

text \<open>Errors thrown inside the service (\<open>new Error(...)\<close>) or by a collaborator.\<close>

datatype error =
    TaskNotFound string
  | MustBeCompleted "jsval option"
  | Collaborator string
  | ENOENT string

text \<open>
  The message templates of the returned outcome objects, one constructor per
  template string of the source.
\<close>

datatype message =
    FirestoreNotInitialized
  | AlreadyVerified
  | VerifiedSuccessfully string
  | ErrorVerifyingTask error
  | CouldNotDetermineTaskId
  | ErrorDuringVerification error

record outcome =
  success :: bool
  message :: message
  transactionId :: "string option"
  verificationResult :: "bool option"

text \<open>
  The state outside the process: the \<open>tasks\<close> and \<open>file_hashes\<close> collections of
  Firestore, the bucket's objects and their custom metadata, the local file system,
  and the trace of mock settlement transactions created so far (most recent first; each
  call of \<open>createMockTransaction\<close> leaves one entry, as it leaves one console line).
  Document ids are unique within a collection; the list of tasks is read through
  \<open>map_of\<close> and written through \<open>AList.update\<close>.
\<close>

record world =
  tasks :: "(string \<times> doc) list"
  file_hashes :: "doc list"
  objects :: "string \<rightharpoonup> string"
  object_tags :: "string \<rightharpoonup> string"
  files :: "string \<rightharpoonup> string"
  settlements :: "string list"

text \<open>
  What one invocation reads from its surroundings: \<open>Date.now()\<close>, the text of
  \<open>Math.random().toString(36)\<close>, \<open>os.tmpdir()\<close>, the time the database server
  assigns to \<open>FieldValue.serverTimestamp()\<close>, and for each call that leaves the
  process (the database, the bucket, the file system) whether it fails (\<open>Some msg\<close>:
  it throws an error with that message).
\<close>

record env =
  now :: nat
  random36 :: string
  tmpdir :: string
  server_time :: int
  get_fault :: "string option"
  query_fault :: "string option"
  update_fault :: "string option"
  download_fault :: "string option"
  read_fault :: "string option"
  add_fault :: "string option"
  setMetadata_fault :: "string option"
  unlink_fault :: "string option"

text \<open>
  The fields the constructor of \<open>BlockchainService\<close> sets that the methods read:
  \<open>this.admin\<close> and \<open>this.db\<close> (true: not null).
\<close>

record service =
  svc_admin :: bool
  svc_db :: bool

definition BlockchainService :: "bool \<Rightarrow> service" where
  "BlockchainService admin = \<lparr>svc_admin = admin, svc_db = (if admin then True else False)\<rparr>"

definition DEBUG_MODE :: bool where
  "DEBUG_MODE = True"

text \<open>
  The \<open>metadata\<close> argument of \<open>extractTaskId\<close>: an optional \<open>taskId\<close>, and the three
  fields the upload handler passes.
\<close>

record metadata =
  taskId :: "string option"
  fileName :: "string option"
  fileSize :: "nat option"
  uploadTimestamp :: "int option"

section \<open>The task store collaborator\<close>

text \<open>
  \<open>db.collection('tasks').doc(id).get()\<close>: the snapshot of the document, \<open>None\<close> when
  there is none (\<open>exists\<close> false).
\<close>

definition task_doc_get :: "env \<Rightarrow> world \<Rightarrow> string \<Rightarrow> error + doc option" where
  "task_doc_get e w tid =
     (case get_fault e of Some m \<Rightarrow> Inl (Collaborator m) | None \<Rightarrow> Inr (map_of (tasks w) tid))"

text \<open>\<open>update\<close> merges the given fields into an existing document and rejects when there is none.\<close>

definition task_doc_update :: "env \<Rightarrow> world \<Rightarrow> string \<Rightarrow> doc \<Rightarrow> error + world" where
  "task_doc_update e w tid upd =
     (case update_fault e of
        Some m \<Rightarrow> Inl (Collaborator m)
      | None \<Rightarrow>
          (case map_of (tasks w) tid of
             None \<Rightarrow> Inl (Collaborator ''NOT_FOUND'')
           | Some d \<Rightarrow> Inr (w\<lparr>tasks := AList.update tid (d ++ upd) (tasks w)\<rparr>)))"

definition completedAt_of :: "doc \<Rightarrow> int option" where
  "completedAt_of d = (case d ''completedAt'' of Some (JTime t) \<Rightarrow> Some t | _ \<Rightarrow> None)"

definition is_completed :: "doc \<Rightarrow> bool" where
  "is_completed d = (d ''status'' = Some (JStr ''completed'') \<and> completedAt_of d \<noteq> None)"

text \<open>
  Modelled from the spec: the query engine of the document database is not part of the
  repository. \<open>where('status', '==', 'completed').orderBy('completedAt', 'desc').limit(1)\<close>
  is "the single most-recently-completed task (status == completed, ordered by
  completedAt descending, limit 1)": of the documents whose status is \<open>completed\<close> and
  that carry a completedAt timestamp, one with the greatest timestamp.
\<close>

fun most_recent :: "(string \<times> doc) list \<Rightarrow> (string \<times> doc) option" where
  "most_recent [] = None"
| "most_recent ((k, d) # rest) =
     (if is_completed d then
        (case most_recent rest of
           None \<Rightarrow> Some (k, d)
         | Some (k', d') \<Rightarrow>
             (if the (completedAt_of d') \<le> the (completedAt_of d) then Some (k, d) else Some (k', d')))
      else most_recent rest)"

definition tasks_query :: "env \<Rightarrow> world \<Rightarrow> error + (string \<times> doc) option" where
  "tasks_query e w =
     (case query_fault e of Some m \<Rightarrow> Inl (Collaborator m) | None \<Rightarrow> Inr (most_recent (tasks w)))"

section \<open>BlockchainService.extractTaskId\<close>

definition alnum :: "char \<Rightarrow> bool" where
  "alnum c = (c \<in> set (''abcdefghijklmnopqrstuvwxyz'' @ ''ABCDEFGHIJKLMNOPQRSTUVWXYZ'' @ ''0123456789''))"

text \<open>
  \<open>filePath.match(/task-([a-zA-Z0-9]+)/)\<close>: the leftmost position where \<open>task-\<close> is
  followed by at least one alphanumeric character; the group captures the longest
  alphanumeric run there.
\<close>

fun match_task :: "string \<Rightarrow> string option" where
  "match_task [] = None"
| "match_task (c # cs) =
     (if prefix ''task-'' (c # cs) \<and> (case drop 5 (c # cs) of [] \<Rightarrow> False | d # _ \<Rightarrow> alnum d)
      then Some (takeWhile alnum (drop 5 (c # cs)))
      else match_task cs)"

text \<open>The body of the \<open>try\<close> block; \<open>Inl\<close> is an exception leaving it.\<close>

definition extractTaskId_try :: "service \<Rightarrow> env \<Rightarrow> world \<Rightarrow> string \<Rightarrow> metadata \<Rightarrow> error + string option" where
  "extractTaskId_try svc e w filePath md =
     (if taskId md \<noteq> None \<and> taskId md \<noteq> Some [] then Inr (taskId md)
      else
        (case match_task filePath of
           Some tok \<Rightarrow> Inr (Some tok)
         | None \<Rightarrow>
             (if \<not> svc_db svc then Inr None
              else
                (case tasks_query e w of
                   Inl err \<Rightarrow> Inl err
                 | Inr None \<Rightarrow> Inr None
                 | Inr (Some (k, d)) \<Rightarrow> Inr (Some k)))))"

text \<open>The \<open>catch\<close> block logs the error and returns null.\<close>

definition extractTaskId :: "service \<Rightarrow> env \<Rightarrow> world \<Rightarrow> string \<Rightarrow> metadata \<Rightarrow> string option" where
  "extractTaskId svc e w filePath md =
     (case extractTaskId_try svc e w filePath md of Inl err \<Rightarrow> None | Inr r \<Rightarrow> r)"

text \<open>
  The words of the spec for the second resolution step, "scan filePath for a pattern
  task-<alphanumeric> (first match)": position \<open>i\<close> of \<open>s\<close> starts a match when
  \<open>task-\<close> and then an alphanumeric character stand there.
\<close>

definition matches_at :: "string \<Rightarrow> nat \<Rightarrow> bool" where
  "matches_at s i =
     (prefix ''task-'' (drop i s) \<and> (case drop 5 (drop i s) of [] \<Rightarrow> False | d # _ \<Rightarrow> alnum d))"

section \<open>BlockchainService.createMockTransaction\<close>

definition digits36 :: string where
  "digits36 = ''0123456789abcdefghijklmnopqrstuvwxyz''"

text \<open>\<open>Number.prototype.toString(36)\<close> on a non-negative integer.\<close>

function toString36 :: "nat \<Rightarrow> string" where
  "toString36 n = (if n < 36 then [digits36 ! n] else toString36 (n div 36) @ [digits36 ! (n mod 36)])"
  by pat_completeness auto
termination
  by (relation "measure id") auto

declare toString36.simps [simp del]

text \<open>\<open>s.substring(a, b)\<close> for \<open>a \<le> b\<close>.\<close>

definition substring :: "nat \<Rightarrow> nat \<Rightarrow> string \<Rightarrow> string" where
  "substring a b s = take (b - a) (drop a s)"

definition mockTxId :: "env \<Rightarrow> string" where
  "mockTxId e = ''MOCK_TX_'' @ toString36 (now e) @ ''_'' @ substring 2 7 (random36 e)"

definition createMockTransaction :: "env \<Rightarrow> world \<Rightarrow> string \<Rightarrow> bool \<Rightarrow> string \<Rightarrow> string \<times> world" where
  "createMockTransaction e w tid result reportHash =
     (mockTxId e, w\<lparr>settlements := mockTxId e # settlements w\<rparr>)"

section \<open>BlockchainService.verifyTask\<close>

definition rejected :: "message \<Rightarrow> outcome" where
  "rejected m = \<lparr>success = False, message = m, transactionId = None, verificationResult = None\<rparr>"

definition recorded :: "string \<Rightarrow> string \<Rightarrow> bool \<Rightarrow> outcome" where
  "recorded tid tx vr =
     \<lparr>success = True, message = VerifiedSuccessfully tid, transactionId = Some tx,
      verificationResult = Some vr\<rparr>"

text \<open>The fields written by the update; the timestamp is the server's.\<close>

definition verification_fields :: "env \<Rightarrow> bool \<Rightarrow> string \<Rightarrow> string \<Rightarrow> doc" where
  "verification_fields e vr reportHash tx =
     [''status'' \<mapsto> JStr (if vr then ''verified'' else ''rejected''),
      ''verificationResult'' \<mapsto> JBool vr,
      ''verificationReportHash'' \<mapsto> JStr reportHash,
      ''verificationTimestamp'' \<mapsto> JTime (server_time e),
      ''verificationTx'' \<mapsto> JStr tx]"

text \<open>
  What \<open>verifyTask\<close> does once \<open>await ... get()\<close> has delivered its snapshot. The
  snapshot is a value of its own: the checks read it, not the store, and the update
  is written to the store as it is when the function resumes.
\<close>

definition verifyTask_resume ::
  "service \<Rightarrow> env \<Rightarrow> world \<Rightarrow> string \<Rightarrow> bool \<Rightarrow> string \<Rightarrow> doc option \<Rightarrow> outcome \<times> world" where
  "verifyTask_resume svc e w tid vr reportHash snapshot =
     (case snapshot of
        None \<Rightarrow> (rejected (ErrorVerifyingTask (TaskNotFound tid)), w)
      | Some task \<Rightarrow>
          (if task ''status'' \<noteq> Some (JStr ''completed'')
           then (rejected (ErrorVerifyingTask (MustBeCompleted (task ''status''))), w)
           else if task ''verificationResult'' \<noteq> None \<and> task ''verificationResult'' \<noteq> Some JNull
           then (rejected AlreadyVerified, w)
           else
             (let (tx, w1) =
                    (if DEBUG_MODE then createMockTransaction e w tid vr reportHash
                     else (''NOT_IMPLEMENTED_YET'', w))
              in if svc_db svc \<and> svc_admin svc
                 then
                   (case task_doc_update e w1 tid (verification_fields e vr reportHash tx) of
                      Inl err \<Rightarrow> (rejected (ErrorVerifyingTask err), w1)
                    | Inr w2 \<Rightarrow> (recorded tid tx vr, w2))
                 else (recorded tid tx vr, w1))))"

text \<open>
  Everything after \<open>await this.db.collection('tasks').doc(taskId).get()\<close>: a
  rejected promise lands in the \<open>catch\<close> block, a snapshot resumes the function.
\<close>

definition verifyTask_after_get ::
  "service \<Rightarrow> env \<Rightarrow> world \<Rightarrow> string \<Rightarrow> bool \<Rightarrow> string \<Rightarrow> error + doc option \<Rightarrow> outcome \<times> world" where
  "verifyTask_after_get svc e w tid vr reportHash got =
     (case got of
        Inl err \<Rightarrow> (rejected (ErrorVerifyingTask err), w)
      | Inr snapshot \<Rightarrow> verifyTask_resume svc e w tid vr reportHash snapshot)"

definition verifyTask ::
  "service \<Rightarrow> env \<Rightarrow> world \<Rightarrow> string \<Rightarrow> bool \<Rightarrow> string \<Rightarrow> outcome \<times> world" where
  "verifyTask svc e w tid vr reportHash =
     (if \<not> svc_db svc then (rejected FirestoreNotInitialized, w)
      else verifyTask_after_get svc e w tid vr reportHash (task_doc_get e w tid))"

text \<open>
  Two invocations of \<open>verifyTask\<close> on the same task whose reads both complete before
  either resumes: both \<open>get()\<close> calls see the store \<open>w\<close>; then the first invocation
  runs to its end, then the second, each on the snapshot it was given.
\<close>

definition verifyTask_race ::
  "service \<Rightarrow> world \<Rightarrow> string \<Rightarrow> env \<Rightarrow> bool \<Rightarrow> string \<Rightarrow> env \<Rightarrow> bool \<Rightarrow> string \<Rightarrow>
     outcome \<times> outcome \<times> world" where
  "verifyTask_race svc w tid eA vrA hashA eB vrB hashB =
     (if \<not> svc_db svc then (rejected FirestoreNotInitialized, rejected FirestoreNotInitialized, w)
      else
        (let gotA = task_doc_get eA w tid;
             gotB = task_doc_get eB w tid;
             (outA, w1) = verifyTask_after_get svc eA w tid vrA hashA gotA;
             (outB, w2) = verifyTask_after_get svc eB w1 tid vrB hashB gotB
         in (outA, outB, w2)))"

section \<open>index.js: sendToExternalSystem and processLogFileUpload\<close>

text \<open>\<open>const blockchainService = new BlockchainService(admin)\<close>, with the imported SDK.\<close>

definition blockchainService :: service where
  "blockchainService = BlockchainService True"

text \<open>
  \<open>extractTaskId\<close> and \<open>verifyTask\<close> catch every exception themselves, so nothing
  reaches the \<open>catch\<close> block of \<open>sendToExternalSystem\<close>. \<open>!taskId\<close> holds for null
  and for the empty string. The verification result is the constant \<open>true\<close>.
\<close>

definition sendToExternalSystem :: "env \<Rightarrow> world \<Rightarrow> string \<Rightarrow> string \<Rightarrow> metadata \<Rightarrow> outcome \<times> world" where
  "sendToExternalSystem e w fileHash filePath md =
     (case extractTaskId blockchainService e w filePath md of
        None \<Rightarrow> (rejected CouldNotDetermineTaskId, w)
      | Some tid \<Rightarrow>
          (if tid = [] then (rejected CouldNotDetermineTaskId, w)
           else verifyTask blockchainService e w tid True fileHash))"

record storage_object =
  obj_name :: string
  obj_bucket :: string
  obj_contentType :: string
  obj_size :: nat
  obj_timeCreated :: int

text \<open>\<open>path.basename\<close> (POSIX): trailing slashes dropped, then the part after the last slash.\<close>

definition basename :: "string \<Rightarrow> string" where
  "basename p =
     rev (takeWhile (\<lambda>c. c \<noteq> CHR ''/'') (dropWhile (\<lambda>c. c = CHR ''/'') (rev p)))"

text \<open>
  \<open>path.join\<close> (POSIX) of two arguments: the non-empty arguments joined by a slash,
  then normalised. Normalisation drops empty and \<open>.\<close> segments, lets \<open>..\<close> remove
  the segment before it (at the root of an absolute path it is dropped, at the start of
  a relative path it is kept), keeps a leading and a trailing slash, and writes the
  empty result as \<open>/\<close> or \<open>.\<close>.
\<close>

fun split_slash :: "string \<Rightarrow> string list" where
  "split_slash [] = [[]]"
| "split_slash (c # cs) =
     (if c = CHR ''/'' then [] # split_slash cs
      else (case split_slash cs of [] \<Rightarrow> [[c]] | seg # segs \<Rightarrow> (c # seg) # segs))"

fun join_slash :: "string list \<Rightarrow> string" where
  "join_slash [] = []"
| "join_slash [seg] = seg"
| "join_slash (seg # segs) = seg @ ''/'' @ join_slash segs"

definition normalize_step :: "bool \<Rightarrow> string list \<Rightarrow> string \<Rightarrow> string list" where
  "normalize_step allowAboveRoot res seg =
     (if seg = [] \<or> seg = ''.'' then res
      else if seg = ''..'' then
        (if res \<noteq> [] \<and> last res \<noteq> ''..'' then butlast res
         else if allowAboveRoot then res @ [''..'']
         else res)
      else res @ [seg])"

definition normalize :: "string \<Rightarrow> string" where
  "normalize p =
     (if p = [] then ''.''
      else
        (let isAbsolute = (hd p = CHR ''/'');
             trailingSeparator = (last p = CHR ''/'');
             body = join_slash (foldl (normalize_step (\<not> isAbsolute)) [] (split_slash p))
         in if body = [] then (if isAbsolute then ''/'' else if trailingSeparator then ''./'' else ''.'')
            else (if isAbsolute then ''/'' else []) @ body @ (if trailingSeparator then ''/'' else [])))"

definition path_join :: "string \<Rightarrow> string \<Rightarrow> string" where
  "path_join a b =
     (if a = [] \<and> b = [] then ''.''
      else normalize (if a = [] then b else if b = [] then a else a @ ''/'' @ b))"

text \<open>\<open>const tempFilePath = path.join(os.tmpdir(), fileName)\<close>.\<close>

definition tempFilePath :: "env \<Rightarrow> string \<Rightarrow> string" where
  "tempFilePath e fname = path_join (tmpdir e) fname"

definition download :: "env \<Rightarrow> world \<Rightarrow> string \<Rightarrow> string \<Rightarrow> error + world" where
  "download e w filePath dest =
     (case download_fault e of
        Some m \<Rightarrow> Inl (Collaborator m)
      | None \<Rightarrow>
          (case objects w filePath of
             None \<Rightarrow> Inl (Collaborator ''No such object'')
           | Some bytes \<Rightarrow> Inr (w\<lparr>files := (files w)(dest \<mapsto> bytes)\<rparr>)))"

definition readFileSync :: "env \<Rightarrow> world \<Rightarrow> string \<Rightarrow> error + string" where
  "readFileSync e w p =
     (case read_fault e of
        Some m \<Rightarrow> Inl (Collaborator m)
      | None \<Rightarrow> (case files w p of None \<Rightarrow> Inl (ENOENT p) | Some bytes \<Rightarrow> Inr bytes))"

definition file_hashes_add :: "env \<Rightarrow> world \<Rightarrow> doc \<Rightarrow> error + world" where
  "file_hashes_add e w d =
     (case add_fault e of
        Some m \<Rightarrow> Inl (Collaborator m)
      | None \<Rightarrow> Inr (w\<lparr>file_hashes := file_hashes w @ [d]\<rparr>))"

definition setMetadata :: "env \<Rightarrow> world \<Rightarrow> string \<Rightarrow> string \<Rightarrow> error + world" where
  "setMetadata e w filePath fileHash =
     (case setMetadata_fault e of
        Some m \<Rightarrow> Inl (Collaborator m)
      | None \<Rightarrow>
          (case objects w filePath of
             None \<Rightarrow> Inl (Collaborator ''No such object'')
           | Some bytes \<Rightarrow> Inr (w\<lparr>object_tags := (object_tags w)(filePath \<mapsto> fileHash)\<rparr>)))"

definition existsSync :: "world \<Rightarrow> string \<Rightarrow> bool" where
  "existsSync w p = (files w p \<noteq> None)"

text \<open>
  \<open>fs.unlinkSync\<close> throws when there is no file at the path, and when the file system
  refuses to remove what is there (a directory, a missing permission, an I/O error).
\<close>

definition unlinkSync :: "env \<Rightarrow> world \<Rightarrow> string \<Rightarrow> error + world" where
  "unlinkSync e w p =
     (case unlink_fault e of
        Some m \<Rightarrow> Inl (Collaborator m)
      | None \<Rightarrow>
          (case files w p of
             None \<Rightarrow> Inl (ENOENT p)
           | Some bytes \<Rightarrow> Inr (w\<lparr>files := (files w)(p := None)\<rparr>)))"

definition fileMetadata :: "env \<Rightarrow> storage_object \<Rightarrow> string \<Rightarrow> doc" where
  "fileMetadata e obj fileHash =
     [''fileName'' \<mapsto> JStr (basename (obj_name obj)),
      ''filePath'' \<mapsto> JStr (obj_name obj),
      ''contentType'' \<mapsto> JStr (obj_contentType obj),
      ''sizeBytes'' \<mapsto> JNum (int (obj_size obj)),
      ''uploadTimestamp'' \<mapsto> JTime (obj_timeCreated obj),
      ''sha256Hash'' \<mapsto> JStr fileHash,
      ''processedTimestamp'' \<mapsto> JTime (int (now e))]"

text \<open>
  The \<open>try\<close> block of the handler, for an object under \<open>logs/\<close>. The SHA-256 of
  \<open>crypto\<close> is the parameter \<open>sha\<close>. The result carries the state reached when the
  block is left, by \<open>return\<close> or by an exception, since the \<open>catch\<close> block goes on from there.
\<close>

definition processLogFileUpload_try ::
  "(string \<Rightarrow> string) \<Rightarrow> env \<Rightarrow> world \<Rightarrow> storage_object \<Rightarrow> (error + string) \<times> world" where
  "processLogFileUpload_try sha e w obj =
     (let filePath = obj_name obj;
          fname = basename filePath;
          tmp = tempFilePath e fname
      in case download e w filePath tmp of
           Inl err \<Rightarrow> (Inl err, w)
         | Inr w1 \<Rightarrow>
             (case readFileSync e w1 tmp of
                Inl err \<Rightarrow> (Inl err, w1)
              | Inr fileBuffer \<Rightarrow>
                  (let fileHash = sha fileBuffer
                   in case file_hashes_add e w1 (fileMetadata e obj fileHash) of
                        Inl err \<Rightarrow> (Inl err, w1)
                      | Inr w2 \<Rightarrow>
                          (case setMetadata e w2 filePath fileHash of
                             Inl err \<Rightarrow> (Inl err, w2)
                           | Inr w3 \<Rightarrow>
                               (let (verification, w4) =
                                      sendToExternalSystem e w3 fileHash filePath
                                        \<lparr>taskId = None, fileName = Some fname,
                                         fileSize = Some (obj_size obj),
                                         uploadTimestamp = Some (obj_timeCreated obj)\<rparr>
                                in case unlinkSync e w4 tmp of
                                     Inl err \<Rightarrow> (Inl err, w4)
                                   | Inr w5 \<Rightarrow> (Inr fileHash, w5))))))"

text \<open>
  The handler: objects outside \<open>logs/\<close> are skipped with \<open>null\<close>; an exception of the
  \<open>try\<close> block is rethrown after the cleanup, which unlinks the temporary file if it
  exists and swallows an error of that unlink (\<open>catch (cleanupError)\<close>), leaving the
  file where it is.
\<close>

definition processLogFileUpload ::
  "(string \<Rightarrow> string) \<Rightarrow> env \<Rightarrow> world \<Rightarrow> storage_object \<Rightarrow> (error + string option) \<times> world" where
  "processLogFileUpload sha e w obj =
     (if \<not> prefix ''logs/'' (obj_name obj) then (Inr None, w)
      else
        (case processLogFileUpload_try sha e w obj of
           (Inr fileHash, w') \<Rightarrow> (Inr (Some fileHash), w')
         | (Inl err, w') \<Rightarrow>
             (let tmp = tempFilePath e (basename (obj_name obj))
              in if existsSync w' tmp
                 then (case unlinkSync e w' tmp of Inl cleanupError \<Rightarrow> (Inl err, w') | Inr w'' \<Rightarrow> (Inl err, w''))
                 else (Inl err, w'))))"

section \<open>firestore.rules\<close>

text \<open>
  The rules file as data, and the evaluation the rules engine applies to it: a request
  is allowed when some \<open>allow\<close> statement that lists its method, inside a \<open>match\<close>
  block whose path pattern (nested patterns concatenated) matches the whole resource
  path, has a true condition. With \<open>rules_version = '2'\<close> a recursive wildcard
  \<open>{name=**}\<close> matches zero or more path segments.
\<close>

datatype seg = Lit string | Wild string | RecWild string

datatype access = Read | Write

datatype cond = AuthNotNull | CondFalse

datatype block = Match "seg list" "(access list \<times> cond) list" "block list"

record request =
  req_access :: access
  req_path :: "string list"
  req_auth :: "string option"

fun matches :: "seg list \<Rightarrow> string list \<Rightarrow> bool" where
  "matches [] p = (p = [])"
| "matches (RecWild v # ps) p = list_ex (\<lambda>k. matches ps (drop k p)) [0..<Suc (length p)]"
| "matches (Lit s # ps) [] = False"
| "matches (Lit s # ps) (x # xs) = (s = x \<and> matches ps xs)"
| "matches (Wild v # ps) [] = False"
| "matches (Wild v # ps) (x # xs) = matches ps xs"

fun eval_cond :: "cond \<Rightarrow> request \<Rightarrow> bool" where
  "eval_cond AuthNotNull r = (req_auth r \<noteq> None)"
| "eval_cond CondFalse r = False"

fun allows :: "seg list \<Rightarrow> block \<Rightarrow> request \<Rightarrow> bool" where
  "allows outer (Match pat stmts inner) r =
     ((matches (outer @ pat) (req_path r) \<and>
         list_ex (\<lambda>(ms, c). req_access r \<in> set ms \<and> eval_cond c r) stmts)
      \<or> list_ex (\<lambda>b. allows (outer @ pat) b r) inner)"

definition firestore_rules :: block where
  "firestore_rules =
     Match [Lit ''databases'', Wild ''database'', Lit ''documents''] []
       [Match [Lit ''file_hashes'', RecWild ''document''] [([Read, Write], AuthNotNull)] [],
        Match [RecWild ''document''] [([Read, Write], CondFalse)] []]"

definition allowed :: "request \<Rightarrow> bool" where
  "allowed r = allows [] firestore_rules r"

section \<open>Sample inputs\<close>

definition sample_task :: doc where
  "sample_task = [''status'' \<mapsto> JStr ''completed'', ''completedAt'' \<mapsto> JTime 100]"

definition pending_task :: doc where
  "pending_task = [''status'' \<mapsto> JStr ''pending'']"

definition verified_task :: doc where
  "verified_task =
     [''status'' \<mapsto> JStr ''completed'', ''completedAt'' \<mapsto> JTime 100,
      ''verificationResult'' \<mapsto> JBool False]"

definition three_tasks :: "(string \<times> doc) list" where
  "three_tasks =
     [(''T8'', [''status'' \<mapsto> JStr ''completed'', ''completedAt'' \<mapsto> JTime 50]),
      (''T9'', [''status'' \<mapsto> JStr ''completed'', ''completedAt'' \<mapsto> JTime 90]),
      (''T7'', [''status'' \<mapsto> JStr ''pending''])]"

definition sample_world :: world where
  "sample_world =
     \<lparr>tasks = [(''T1'', sample_task)], file_hashes = [],
      objects = [''logs/task-T1-flight.log'' \<mapsto> ''bytes''],
      object_tags = Map.empty, files = Map.empty, settlements = []\<rparr>"

definition sample_env :: env where
  "sample_env =
     \<lparr>now = 1000, random36 = ''0.abcdefgh'', tmpdir = ''/tmp'', server_time = 1002,
      get_fault = None, query_fault = None, update_fault = None, download_fault = None,
      read_fault = None, add_fault = None, setMetadata_fault = None, unlink_fault = None\<rparr>"

definition sample_object :: storage_object where
  "sample_object =
     \<lparr>obj_name = ''logs/task-T1-flight.log'', obj_bucket = ''df-autopilot.firebasestorage.app'',
      obj_contentType = ''text/plain'', obj_size = 5, obj_timeCreated = 900\<rparr>"

definition tagged_metadata :: metadata where
  "tagged_metadata = \<lparr>taskId = Some ''T1'', fileName = None, fileSize = None, uploadTimestamp = None\<rparr>"

definition plain_metadata :: metadata where
  "plain_metadata = \<lparr>taskId = None, fileName = Some ''run.log'', fileSize = Some 5, uploadTimestamp = Some 900\<rparr>"

section \<open>Facts about verifyTask\<close>

lemma rejected_simps:
  "success (rejected m) = False" "transactionId (rejected m) = None" "message (rejected m) = m"
  by (simp_all add: rejected_def)

lemma recorded_simps:
  "success (recorded t x v) = True" "transactionId (recorded t x v) = Some x"
  by (simp_all add: recorded_def)

lemma verification_fields_status:
  "(d ++ verification_fields e vr h tx) ''status'' = Some (JStr (if vr then ''verified'' else ''rejected''))"
  "(d ++ verification_fields e vr h tx) ''verificationResult'' = Some (JBool vr)"
  by (simp_all add: verification_fields_def map_add_def)

lemma verifyTask_resume_not_completed:
  "task ''status'' \<noteq> Some (JStr ''completed'') \<Longrightarrow>
   verifyTask_resume svc e w tid vr h (Some task) =
     (rejected (ErrorVerifyingTask (MustBeCompleted (task ''status''))), w)"
  by (simp add: verifyTask_resume_def)

lemma verifyTask_resume_already:
  "task ''status'' = Some (JStr ''completed'') \<Longrightarrow>
   task ''verificationResult'' \<noteq> None \<Longrightarrow> task ''verificationResult'' \<noteq> Some JNull \<Longrightarrow>
   verifyTask_resume svc e w tid vr h (Some task) = (rejected AlreadyVerified, w)"
  by (simp add: verifyTask_resume_def)

lemma verifyTask_resume_eligible:
  assumes "svc_db svc" "svc_admin svc"
    and "task ''status'' = Some (JStr ''completed'')"
    and "task ''verificationResult'' = None \<or> task ''verificationResult'' = Some JNull"
    and "update_fault e = None" and "map_of (tasks w) tid = Some cur"
  shows "verifyTask_resume svc e w tid vr h (Some task) =
     (recorded tid (mockTxId e) vr,
      w\<lparr>settlements := mockTxId e # settlements w,
        tasks := AList.update tid (cur ++ verification_fields e vr h (mockTxId e)) (tasks w)\<rparr>)"
  using assms
  by (auto simp: verifyTask_resume_def createMockTransaction_def DEBUG_MODE_def task_doc_update_def)

lemma verifyTask_not_completed:
  assumes "map_of (tasks w) tid = Some task" "task ''status'' \<noteq> Some (JStr ''completed'')"
  shows "\<exists>m. verifyTask svc e w tid vr h = (rejected m, w)"
  using assms
  by (auto simp: verifyTask_def verifyTask_after_get_def task_doc_get_def verifyTask_resume_not_completed split: option.splits)

lemma verifyTask_set:
  assumes "map_of (tasks w) tid = Some task" "task ''verificationResult'' \<noteq> None"  "task ''verificationResult'' \<noteq> Some JNull"
  shows "\<exists>m. verifyTask svc e w tid vr h = (rejected m, w)"
proof (cases "task ''status'' = Some (JStr ''completed'')")
  case True
  with assms show ?thesis
    by (auto simp: verifyTask_def verifyTask_after_get_def task_doc_get_def verifyTask_resume_already split: option.splits)
next
  case False
  with assms(1) show ?thesis by (rule verifyTask_not_completed)
qed

lemma verifyTask_success_writes:
  assumes "verifyTask svc e w tid vr h = (out, w')" "success out" "svc_admin svc"
  shows "\<exists>d. map_of (tasks w) tid = Some d \<and>
     w' = w\<lparr>settlements := mockTxId e # settlements w,
            tasks := AList.update tid (d ++ verification_fields e vr h (mockTxId e)) (tasks w)\<rparr> \<and>
     out = recorded tid (mockTxId e) vr"
  using assms
  by (auto simp: verifyTask_def verifyTask_after_get_def task_doc_get_def verifyTask_resume_def rejected_simps
      task_doc_update_def createMockTransaction_def DEBUG_MODE_def
      split: option.splits if_splits sum.splits prod.splits)

lemma verifyTask_tasks:
  assumes "verifyTask svc e w tid vr h = (out, w')"
  shows "tasks w' = tasks w \<or>
    (\<exists>d tx. map_of (tasks w) tid = Some d \<and>
       tasks w' = AList.update tid (d ++ verification_fields e vr h tx) (tasks w))"
  using assms
  by (auto simp: verifyTask_def verifyTask_after_get_def task_doc_get_def verifyTask_resume_def
      task_doc_update_def createMockTransaction_def DEBUG_MODE_def
      split: option.splits if_splits sum.splits prod.splits)


lemma verifyTask_race_eligible:
  assumes svc: "svc_db svc" "svc_admin svc"
    and task: "map_of (tasks w) tid = Some task" "task ''status'' = Some (JStr ''completed'')"
      "task ''verificationResult'' = None \<or> task ''verificationResult'' = Some JNull"
    and ok: "get_fault eA = None" "get_fault eB = None" "update_fault eA = None" "update_fault eB = None"
  shows "verifyTask_race svc w tid eA vrA hA eB vrB hB =
     (recorded tid (mockTxId eA) vrA, recorded tid (mockTxId eB) vrB,
      w\<lparr>settlements := mockTxId eB # mockTxId eA # settlements w,
        tasks := AList.update tid
          (task ++ verification_fields eA vrA hA (mockTxId eA) ++ verification_fields eB vrB hB (mockTxId eB))
          (tasks w)\<rparr>)"
proof -
  let ?w1 = "w\<lparr>settlements := mockTxId eA # settlements w,
        tasks := AList.update tid (task ++ verification_fields eA vrA hA (mockTxId eA)) (tasks w)\<rparr>"
  have a: "verifyTask_after_get svc eA w tid vrA hA (task_doc_get eA w tid) =
      (recorded tid (mockTxId eA) vrA, ?w1)"
    using verifyTask_resume_eligible [OF svc task(2,3) ok(3) task(1)] ok(1) task(1)
    by (simp add: verifyTask_after_get_def task_doc_get_def)
  have cur: "map_of (tasks ?w1) tid = Some (task ++ verification_fields eA vrA hA (mockTxId eA))"
    by (simp add: update_conv')
  have b: "verifyTask_after_get svc eB ?w1 tid vrB hB (task_doc_get eB w tid) =
      (recorded tid (mockTxId eB) vrB,
       ?w1\<lparr>settlements := mockTxId eB # settlements ?w1,
         tasks := AList.update tid
           (task ++ verification_fields eA vrA hA (mockTxId eA) ++ verification_fields eB vrB hB (mockTxId eB))
           (tasks ?w1)\<rparr>)"
    using verifyTask_resume_eligible [OF svc task(2,3) ok(4) cur] ok(2) task(1)
    by (simp add: verifyTask_after_get_def task_doc_get_def)
  show ?thesis
    using svc(1) by (simp add: verifyTask_race_def Let_def a b)
qed

lemma sample_first_run:
  "verifyTask blockchainService sample_env sample_world ''T1'' True ''cafe'' =
     (recorded ''T1'' (mockTxId sample_env) True,
      sample_world\<lparr>settlements := [mockTxId sample_env],
        tasks := [(''T1'', sample_task ++ verification_fields sample_env True ''cafe'' (mockTxId sample_env))]\<rparr>)"
  by (simp add: verifyTask_def verifyTask_after_get_def task_doc_get_def blockchainService_def
      BlockchainService_def verifyTask_resume_def task_doc_update_def createMockTransaction_def
      DEBUG_MODE_def sample_world_def sample_env_def sample_task_def)

section \<open>Facts about the upload handler\<close>

lemmas pipeline_defs =
  processLogFileUpload_def processLogFileUpload_try_def sendToExternalSystem_def extractTaskId_def
  extractTaskId_try_def verifyTask_def verifyTask_after_get_def verifyTask_resume_def
  task_doc_get_def task_doc_update_def tasks_query_def createMockTransaction_def DEBUG_MODE_def
  download_def readFileSync_def file_hashes_add_def setMetadata_def existsSync_def unlinkSync_def
  blockchainService_def BlockchainService_def basename_def tempFilePath_def path_join_def
  normalize_def normalize_step_def rejected_def recorded_def
  alnum_def

lemma sendToExternalSystem_tasks:
  assumes "sendToExternalSystem e w h fp md = (out, w')"
  shows "tasks w' = tasks w \<or>
    (\<exists>tid d tx. map_of (tasks w) tid = Some d \<and>
       tasks w' = AList.update tid (d ++ verification_fields e True h tx) (tasks w))"
  using assms verifyTask_tasks [of blockchainService e w _ True h out w']
  by (auto simp: sendToExternalSystem_def split: option.splits if_splits)


lemma frame_tasks:
  "download e w p q = Inr w1 \<Longrightarrow> tasks w1 = tasks w"
  "file_hashes_add e w d = Inr w1 \<Longrightarrow> tasks w1 = tasks w"
  "setMetadata e w p h = Inr w1 \<Longrightarrow> tasks w1 = tasks w"
  "unlinkSync e w p = Inr w1 \<Longrightarrow> tasks w1 = tasks w"
  by (auto simp: download_def file_hashes_add_def setMetadata_def unlinkSync_def split: option.splits)


lemma processLogFileUpload_try_shape:
  assumes "processLogFileUpload_try sha e w obj = (r, w')"
  shows "tasks w' = tasks w \<or>
    (\<exists>w3 h fp md out w4. tasks w3 = tasks w \<and> sendToExternalSystem e w3 h fp md = (out, w4) \<and>
       tasks w' = tasks w4)"
  using assms
  by (fastforce simp: processLogFileUpload_try_def Let_def split: sum.splits prod.splits dest: frame_tasks)

lemma processLogFileUpload_try_tasks:
  assumes "processLogFileUpload_try sha e w obj = (r, w')"
  shows "tasks w' = tasks w \<or>
    (\<exists>tid d tx h. map_of (tasks w) tid = Some d \<and>
       tasks w' = AList.update tid (d ++ verification_fields e True h tx) (tasks w))"
proof -
  from processLogFileUpload_try_shape [OF assms] show ?thesis
  proof
    assume "tasks w' = tasks w" then show ?thesis ..
  next
    assume "\<exists>w3 h fp md out w4. tasks w3 = tasks w \<and> sendToExternalSystem e w3 h fp md = (out, w4) \<and>
       tasks w' = tasks w4"
    then obtain w3 h fp md out w4 where eq: "tasks w3 = tasks w"
      and run: "sendToExternalSystem e w3 h fp md = (out, w4)" and fin: "tasks w' = tasks w4"
      by blast
    from sendToExternalSystem_tasks [OF run] eq fin show ?thesis by metis
  qed
qed

lemma processLogFileUpload_tasks:
  assumes "processLogFileUpload sha e w obj = (r, w')"
  shows "tasks w' = tasks w \<or>
    (\<exists>tid d tx h. map_of (tasks w) tid = Some d \<and>
       tasks w' = AList.update tid (d ++ verification_fields e True h tx) (tasks w))"
proof (cases "prefix ''logs/'' (obj_name obj)")
  case False
  with assms show ?thesis by (simp add: processLogFileUpload_def)
next
  case True
  obtain r0 w0 where t: "processLogFileUpload_try sha e w obj = (r0, w0)"
    by (cases "processLogFileUpload_try sha e w obj")
  have "tasks w' = tasks w0"
    using assms True t
    by (auto simp: processLogFileUpload_def Let_def split: sum.splits if_splits dest: frame_tasks)
  with processLogFileUpload_try_tasks [OF t] show ?thesis by simp
qed



lemma cleanup_frame:
  "tasks (if existsSync w q
          then (case unlinkSync e w q of Inl cleanupError \<Rightarrow> w | Inr w'' \<Rightarrow> w'')
          else w) = tasks w"
  "file_hashes (if existsSync w q
          then (case unlinkSync e w q of Inl cleanupError \<Rightarrow> w | Inr w'' \<Rightarrow> w'')
          else w) = file_hashes w"
  "settlements (if existsSync w q
          then (case unlinkSync e w q of Inl cleanupError \<Rightarrow> w | Inr w'' \<Rightarrow> w'')
          else w) = settlements w"
  "object_tags (if existsSync w q
          then (case unlinkSync e w q of Inl cleanupError \<Rightarrow> w | Inr w'' \<Rightarrow> w'')
          else w) = object_tags w"
  by (auto simp: unlinkSync_def split: option.splits)


lemma processLogFileUpload_rethrows:
  assumes "prefix ''logs/'' (obj_name obj)"
    and "processLogFileUpload_try sha e w obj = (Inl err, w0)"
  shows "processLogFileUpload sha e w obj =
     (Inl err,
      if existsSync w0 (tempFilePath e (basename (obj_name obj)))
      then (case unlinkSync e w0 (tempFilePath e (basename (obj_name obj))) of
              Inl cleanupError \<Rightarrow> w0 | Inr w'' \<Rightarrow> w'')
      else w0)"
  using assms by (auto simp: processLogFileUpload_def Let_def split: sum.splits)

lemma tagging_failure_try:
  assumes "download_fault e = None" "objects w (obj_name obj) = Some bytes"
    and "read_fault e = None" "add_fault e = None" "setMetadata_fault e = Some m"
  shows "processLogFileUpload_try sha e w obj =
     (Inl (Collaborator m),
      w\<lparr>files := (files w)(tempFilePath e (basename (obj_name obj)) \<mapsto> bytes),
        file_hashes := file_hashes w @ [fileMetadata e obj (sha bytes)]\<rparr>)"
  using assms
  by (simp add: processLogFileUpload_try_def download_def readFileSync_def
      file_hashes_add_def setMetadata_def Let_def)


lemma sample_pipeline_run:
  "fst (processLogFileUpload (\<lambda>b. ''cafe'') sample_env sample_world sample_object) = Inr (Some ''cafe'')"
  "map_option (\<lambda>d. d ''status'')
     (map_of (tasks (snd (processLogFileUpload (\<lambda>b. ''cafe'') sample_env sample_world sample_object))) ''T1'')
   = Some (Some (JStr ''verified''))"
  "settlements (snd (processLogFileUpload (\<lambda>b. ''cafe'') sample_env sample_world sample_object))
   = [mockTxId sample_env]"
  by (simp_all add: pipeline_defs sample_env_def sample_world_def sample_object_def sample_task_def
      Let_def verification_fields_def)


section \<open>Facts about extractTaskId\<close>

lemma matches_at_decompose:
  "matches_at s i \<longleftrightarrow> (\<exists>pre d rest. s = pre @ ''task-'' @ d # rest \<and> length pre = i \<and> alnum d)"
proof
  assume m: "matches_at s i"
  then obtain zs where zs: "drop i s = ''task-'' @ zs"
    by (auto simp: matches_at_def prefix_def)
  with m obtain d rest where dr: "zs = d # rest" and a: "alnum d"
    by (auto simp: matches_at_def split: list.splits)
  have "i < length s" using zs by (cases "i < length s") auto
  then have len: "length (take i s) = i" by simp
  have "s = take i s @ drop i s" by simp
  then have "s = take i s @ ''task-'' @ d # rest" using zs dr by simp
  with len a show "\<exists>pre d rest. s = pre @ ''task-'' @ d # rest \<and> length pre = i \<and> alnum d"
    by blast
next
  assume "\<exists>pre d rest. s = pre @ ''task-'' @ d # rest \<and> length pre = i \<and> alnum d"
  then show "matches_at s i" by (auto simp: matches_at_def)
qed

lemma matches_at_Suc: "matches_at (c # cs) (Suc i) = matches_at cs i"
  by (simp add: matches_at_def)

lemma match_task_Cons:
  "match_task (c # cs) =
     (if matches_at (c # cs) 0 then Some (takeWhile alnum (drop 5 (c # cs))) else match_task cs)"
  by (simp add: matches_at_def)

lemma match_task_None_iff: "match_task s = None \<longleftrightarrow> (\<forall>i<length s. \<not> matches_at s i)"
proof (induction s)
  case Nil
  then show ?case by simp
next
  case (Cons c cs)
  have "(\<forall>i<length (c # cs). \<not> matches_at (c # cs) i) \<longleftrightarrow>
      (\<not> matches_at (c # cs) 0 \<and> (\<forall>i<length cs. \<not> matches_at (c # cs) (Suc i)))"
    by (simp add: All_less_Suc2)
  also have "\<dots> \<longleftrightarrow> (\<not> matches_at (c # cs) 0 \<and> match_task cs = None)"
    by (simp only: matches_at_Suc Cons.IH)
  also have "\<dots> \<longleftrightarrow> match_task (c # cs) = None"
    by (simp only: match_task_Cons split: if_splits) simp
  finally show ?case by simp
qed

lemma match_task_first:
  "\<forall>i<n. \<not> matches_at s i \<Longrightarrow> matches_at s n \<Longrightarrow>
     match_task s = Some (takeWhile alnum (drop 5 (drop n s)))"
proof (induction s arbitrary: n)
  case Nil
  then show ?case by (simp add: matches_at_def)
next
  case (Cons c cs)
  show ?case
  proof (cases n)
    case 0
    with Cons.prems(2) show ?thesis by (simp only: match_task_Cons if_True drop_0)
  next
    case (Suc m)
    have no0: "\<not> matches_at (c # cs) 0" using Cons.prems(1) Suc by simp
    have before: "\<forall>i<m. \<not> matches_at cs i"
    proof (intro allI impI)
      fix i assume "i < m"
      then have "\<not> matches_at (c # cs) (Suc i)" using Cons.prems(1) Suc by simp
      then show "\<not> matches_at cs i" by (simp add: matches_at_Suc)
    qed
    have at: "matches_at cs m" using Cons.prems(2) Suc by (simp only: matches_at_Suc)
    from Cons.IH [OF before at] no0 Suc show ?thesis
      by (simp only: match_task_Cons if_False drop_Suc_Cons)
  qed
qed

lemma most_recent_Cons:
  "most_recent ((k, d) # rest) =
     (if \<not> is_completed d then most_recent rest
      else case most_recent rest of
             None \<Rightarrow> Some (k, d)
           | Some (k', d') \<Rightarrow>
               (if the (completedAt_of d') \<le> the (completedAt_of d) then Some (k, d) else Some (k', d')))"
  by simp

lemma most_recent_None_iff: "most_recent ts = None \<longleftrightarrow> (\<forall>(k, d)\<in>set ts. \<not> is_completed d)"
proof (induction ts)
  case Nil
  then show ?case by simp
next
  case (Cons p ts)
  obtain k d where p: "p = (k, d)" by (cases p)
  show ?case
  proof (cases "is_completed d")
    case False
    with Cons.IH p show ?thesis by simp
  next
    case True
    then have "most_recent (p # ts) \<noteq> None"
      unfolding p most_recent_Cons by (simp split: option.splits prod.splits)
    with True p show ?thesis by auto
  qed
qed

lemma most_recent_Some:
  "most_recent ts = Some (k, d) \<Longrightarrow>
     (k, d) \<in> set ts \<and> is_completed d \<and>
     (\<forall>(k', d')\<in>set ts. is_completed d' \<longrightarrow> the (completedAt_of d') \<le> the (completedAt_of d))"
proof (induction ts arbitrary: k d)
  case Nil
  then show ?case by simp
next
  case (Cons p ts)
  obtain k0 d0 where p: "p = (k0, d0)" by (cases p)
  show ?case
  proof (cases "is_completed d0")
    case False
    with Cons.prems p have "most_recent ts = Some (k, d)" by simp
    from Cons.IH [OF this] False p show ?thesis by auto
  next
    case True
    show ?thesis
    proof (cases "most_recent ts")
      case None
      with True Cons.prems p have "k = k0" "d = d0" by simp_all
      moreover from None have "\<forall>(k', d')\<in>set ts. \<not> is_completed d'"
        by (simp only: most_recent_None_iff)
      ultimately show ?thesis using True p by auto
    next
      case (Some q)
      obtain k1 d1 where q: "q = (k1, d1)" by (cases q)
      from Cons.IH [of k1 d1] Some q
      have ih: "(k1, d1) \<in> set ts" "is_completed d1"
        "\<forall>(k', d')\<in>set ts. is_completed d' \<longrightarrow> the (completedAt_of d') \<le> the (completedAt_of d1)"
        by simp_all
      show ?thesis
      proof (cases "the (completedAt_of d1) \<le> the (completedAt_of d0)")
        case le: True
        with True Cons.prems p Some q have kd: "k = k0" "d = d0" by simp_all
        have "\<forall>(k', d')\<in>set ts. is_completed d' \<longrightarrow> the (completedAt_of d') \<le> the (completedAt_of d0)"
          using ih(3) le by fastforce
        with kd True p show ?thesis by auto
      next
        case gt: False
        with True Cons.prems p Some q have kd: "k = k1" "d = d1" by simp_all
        with ih gt p show ?thesis by auto
      qed
    qed
  qed
qed

lemma extractTaskId_metadata:
  "taskId md = Some t \<Longrightarrow> t \<noteq> [] \<Longrightarrow> extractTaskId svc e w fp md = Some t"
  by (simp add: extractTaskId_def extractTaskId_try_def)

lemma extractTaskId_path:
  assumes md: "taskId md = None \<or> taskId md = Some []"
    and fp: "fp = pre @ ''task-'' @ tok @ rest"
    and tok: "tok \<noteq> []" "\<forall>c\<in>set tok. alnum c"
    and rest: "rest = [] \<or> \<not> alnum (hd rest)"
    and first: "\<forall>i<length pre. \<not> matches_at fp i"
  shows "extractTaskId svc e w fp md = Some tok"
proof -
  obtain d ds where dds: "tok = d # ds" using tok(1) by (cases tok) auto
  have at: "matches_at fp (length pre)"
    using tok(2) by (simp add: matches_at_def fp dds)
  have "takeWhile alnum (tok @ rest) = tok"
  proof (cases rest)
    case Nil
    with tok(2) show ?thesis by simp
  next
    case (Cons r rs)
    with rest have "\<not> alnum r" by simp
    with tok(2) Cons show ?thesis by (simp add: takeWhile_tail)
  qed
  moreover have "drop 5 (drop (length pre) fp) = tok @ rest" by (simp add: fp)
  ultimately have "match_task fp = Some tok"
    using match_task_first [OF first at] by simp
  with md show ?thesis by (auto simp: extractTaskId_def extractTaskId_try_def)
qed

lemma extractTaskId_query:
  assumes md: "taskId md = None \<or> taskId md = Some []"
    and nomatch: "\<forall>i<length fp. \<not> matches_at fp i"
    and db: "svc_db svc" and ok: "query_fault e = None"
  shows "extractTaskId svc e w fp md = map_option fst (most_recent (tasks w))"
proof -
  have "match_task fp = None" using nomatch by (simp only: match_task_None_iff)
  with md db ok show ?thesis
    by (auto simp: extractTaskId_def extractTaskId_try_def tasks_query_def split: option.splits)
qed

lemma extractTaskId_no_db:
  assumes md: "taskId md = None \<or> taskId md = Some []"
    and nomatch: "\<forall>i<length fp. \<not> matches_at fp i"
    and db: "\<not> svc_db svc"
  shows "extractTaskId svc e w fp md = None"
proof -
  have "match_task fp = None" using nomatch by (simp only: match_task_None_iff)
  with md db show ?thesis
    by (auto simp: extractTaskId_def extractTaskId_try_def)
qed

lemma extractTaskId_try_query_error:
  assumes md: "taskId md = None \<or> taskId md = Some []"
    and nomatch: "\<forall>i<length fp. \<not> matches_at fp i"
    and db: "svc_db svc" and err: "query_fault e = Some m"
  shows "extractTaskId_try svc e w fp md = Inl (Collaborator m)"
proof -
  have "match_task fp = None" using nomatch by (simp only: match_task_None_iff)
  with md db err show ?thesis
    by (auto simp: extractTaskId_try_def tasks_query_def)
qed

section \<open>Facts about createMockTransaction\<close>

lemma toString36_nonempty: "toString36 n \<noteq> []"
  by (cases "n < 36") (simp_all add: toString36.simps [of n])

lemma digits36_distinct: "distinct digits36" and digits36_length: "length digits36 = 36"
  by (simp_all add: digits36_def)

lemma digits36_inj: "i < 36 \<Longrightarrow> j < 36 \<Longrightarrow> digits36 ! i = digits36 ! j \<Longrightarrow> i = j"
  using digits36_distinct digits36_length by (simp add: nth_eq_iff_index_eq)

lemma digits36_no_underscore: "i < 36 \<Longrightarrow> digits36 ! i \<noteq> CHR ''_''"
proof -
  assume "i < 36"
  then have "digits36 ! i \<in> set digits36" by (simp add: digits36_length)
  moreover have "CHR ''_'' \<notin> set digits36" by (simp add: digits36_def)
  ultimately show ?thesis by auto
qed

lemma toString36_small: "n < 36 \<Longrightarrow> toString36 n = [digits36 ! n]"
  by (simp add: toString36.simps [of n])

lemma toString36_large:
  "\<not> n < 36 \<Longrightarrow> toString36 n = toString36 (n div 36) @ [digits36 ! (n mod 36)]"
  by (simp add: toString36.simps [of n])

lemma toString36_no_underscore: "CHR ''_'' \<notin> set (toString36 n)"
proof (induction n rule: toString36.induct)
  case (1 n)
  show ?case
  proof (cases "n < 36")
    case True
    then show ?thesis using digits36_no_underscore [of n] by (simp add: toString36_small)
  next
    case False
    have "n mod 36 < 36" by simp
    from "1.IH" [OF False] digits36_no_underscore [OF this] show ?thesis
      unfolding toString36_large [OF False] by simp
  qed
qed

lemma toString36_length_small: "n < 36 \<Longrightarrow> length (toString36 n) = 1"
  by (simp add: toString36_small)

lemma toString36_length_large:
  assumes "\<not> n < 36"
  shows "2 \<le> length (toString36 n)"
proof -
  have "toString36 (n div 36) \<noteq> []" by (rule toString36_nonempty)
  then have "1 \<le> length (toString36 (n div 36))" by (cases "toString36 (n div 36)") simp_all
  then show ?thesis unfolding toString36_large [OF assms] by simp
qed

lemma toString36_inj: "toString36 m = toString36 n \<Longrightarrow> m = n"
proof (induction m arbitrary: n rule: toString36.induct)
  case (1 m)
  show ?case
  proof (cases "m < 36")
    case m: True
    show ?thesis
    proof (cases "n < 36")
      case True
      with m "1.prems" show ?thesis by (simp add: toString36_small digits36_inj)
    next
      case False
      from toString36_length_large [OF False] toString36_length_small [OF m] "1.prems"
      show ?thesis by simp
    qed
  next
    case m: False
    show ?thesis
    proof (cases "n < 36")
      case True
      from toString36_length_large [OF m] toString36_length_small [OF True] "1.prems"
      show ?thesis by simp
    next
      case False
      from "1.prems" have d: "toString36 (m div 36) = toString36 (n div 36)"
        and r: "digits36 ! (m mod 36) = digits36 ! (n mod 36)"
        unfolding toString36_large [OF m] toString36_large [OF False] by simp_all
      from "1.IH" [OF m d] have "m div 36 = n div 36" .
      moreover from r have "m mod 36 = n mod 36" by (simp add: digits36_inj)
      ultimately show ?thesis by (metis div_mult_mod_eq)
    qed
  qed
qed

lemma separator_split:
  "CHR ''_'' \<notin> set a \<Longrightarrow> CHR ''_'' \<notin> set b \<Longrightarrow> a @ CHR ''_'' # s = b @ CHR ''_'' # t \<Longrightarrow> a = b \<and> s = t"
proof (induction a arbitrary: b)
  case Nil
  then show ?case by (cases b) auto
next
  case (Cons x a)
  then show ?case by (cases b) auto
qed

lemma mockTxId_eq_iff:
  "mockTxId e1 = mockTxId e2 \<longleftrightarrow>
     now e1 = now e2 \<and> substring 2 7 (random36 e1) = substring 2 7 (random36 e2)"
proof
  assume "mockTxId e1 = mockTxId e2"
  then have "toString36 (now e1) @ CHR ''_'' # substring 2 7 (random36 e1) =
      toString36 (now e2) @ CHR ''_'' # substring 2 7 (random36 e2)"
    by (simp add: mockTxId_def)
  from separator_split [OF toString36_no_underscore toString36_no_underscore this]
  show "now e1 = now e2 \<and> substring 2 7 (random36 e1) = substring 2 7 (random36 e2)"
    by (auto dest: toString36_inj)
next
  assume "now e1 = now e2 \<and> substring 2 7 (random36 e1) = substring 2 7 (random36 e2)"
  then show "mockTxId e1 = mockTxId e2" by (simp add: mockTxId_def)
qed

section \<open>Facts about the rules\<close>

lemma matches_RecWild_last: "matches [RecWild v] p"
proof -
  have "length p \<in> set [0..<Suc (length p)]" by simp
  moreover have "matches [] (drop (length p) p)" by simp
  ultimately show ?thesis unfolding matches.simps list_ex_iff by blast
qed

lemma matches_file_hashes:
  "matches [Lit ''databases'', Wild ''database'', Lit ''documents'', Lit ''file_hashes'', RecWild ''document''] p
     \<longleftrightarrow> (\<exists>db rest. p = ''databases'' # db # ''documents'' # ''file_hashes'' # rest)"
proof (cases p)
  case Nil
  then show ?thesis by simp
next
  case p1: (Cons a p1)
  show ?thesis
  proof (cases p1)
    case Nil
    with p1 show ?thesis by simp
  next
    case p2: (Cons b p2)
    show ?thesis
    proof (cases p2)
      case Nil
      with p1 p2 show ?thesis by simp
    next
      case p3: (Cons c p3)
      show ?thesis
      proof (cases p3)
        case Nil
        with p1 p2 p3 show ?thesis by simp
      next
        case (Cons d rest)
        with p1 p2 p3 show ?thesis
          by (simp only: matches.simps matches_RecWild_last) auto
      qed
    qed
  qed
qed

lemma allowed_iff:
  "allowed r \<longleftrightarrow>
     (\<exists>db rest. req_path r = ''databases'' # db # ''documents'' # ''file_hashes'' # rest) \<and>
     req_auth r \<noteq> None"
proof -
  have rw: "req_access r = Read \<or> req_access r = Write" by (cases "req_access r") simp_all
  have "allowed r \<longleftrightarrow>
      matches [Lit ''databases'', Wild ''database'', Lit ''documents'', Lit ''file_hashes'', RecWild ''document'']
        (req_path r) \<and> req_auth r \<noteq> None"
    unfolding allowed_def firestore_rules_def using rw by auto
  then show ?thesis by (simp only: matches_file_hashes)
qed

section \<open>Claims\<close>

text \<open>
  C1. A task whose \<open>verificationResult\<close> is set (neither \<open>undefined\<close> nor
  \<open>null\<close>) is left as it is by \<open>verifyTask\<close>: whatever the service, the
  surroundings, the new result and the hash, the run returns \<open>success = false\<close> and
  \<open>transactionId = null\<close>, the whole outside state is unchanged (so the task document
  keeps every field and no settlement transaction is created). In particular, after a run
  of a service built by the constructor has returned \<open>success = true\<close>, any further run
  for the same task changes nothing and creates no second settlement.
\<close>

theorem C1_verified_task_is_write_once:
  "(map_of (tasks w) tid = Some task \<and> task ''verificationResult'' \<noteq> None \<and>
      task ''verificationResult'' \<noteq> Some JNull \<and> verifyTask svc e w tid vr h = (out, w')
    \<longrightarrow> success out = False \<and> transactionId out = None \<and>
        map_of (tasks w') tid = Some task \<and> settlements w' = settlements w \<and> w' = w)
   \<and>
   (verifyTask (BlockchainService admin) e1 w tid vr1 h1 = (out1, w1) \<and> success out1 \<and>
      verifyTask (BlockchainService admin) e2 w1 tid vr2 h2 = (out2, w2)
    \<longrightarrow> success out2 = False \<and> transactionId out2 = None \<and>
        settlements w2 = settlements w1 \<and> w2 = w1)"
proof (intro conjI impI)
  assume a: "map_of (tasks w) tid = Some task \<and> task ''verificationResult'' \<noteq> None \<and>
      task ''verificationResult'' \<noteq> Some JNull \<and> verifyTask svc e w tid vr h = (out, w')"
  then obtain m where "verifyTask svc e w tid vr h = (rejected m, w)"
    using verifyTask_set [of w tid task svc e vr h] by blast
  with a show "success out = False" "transactionId out = None" "map_of (tasks w') tid = Some task"
    "settlements w' = settlements w" "w' = w"
    by (auto simp: rejected_simps)
next
  assume b: "verifyTask (BlockchainService admin) e1 w tid vr1 h1 = (out1, w1) \<and> success out1 \<and>
      verifyTask (BlockchainService admin) e2 w1 tid vr2 h2 = (out2, w2)"
  have adm: "svc_admin (BlockchainService admin)"
    using b by (auto simp: verifyTask_def BlockchainService_def rejected_simps split: if_splits)
  from b adm obtain d where d: "map_of (tasks w) tid = Some d"
    and w1: "w1 = w\<lparr>settlements := mockTxId e1 # settlements w,
            tasks := AList.update tid (d ++ verification_fields e1 vr1 h1 (mockTxId e1)) (tasks w)\<rparr>"
    using verifyTask_success_writes [of "BlockchainService admin" e1 w tid vr1 h1 out1 w1] by blast
  let ?t = "d ++ verification_fields e1 vr1 h1 (mockTxId e1)"
  have "map_of (tasks w1) tid = Some ?t" by (simp add: w1 update_conv')
  moreover have "?t ''verificationResult'' \<noteq> None" "?t ''verificationResult'' \<noteq> Some JNull"
    by (simp_all add: verification_fields_status)
  ultimately have "\<exists>m. verifyTask (BlockchainService admin) e2 w1 tid vr2 h2 = (rejected m, w1)"
    by (rule verifyTask_set)
  then obtain m where "verifyTask (BlockchainService admin) e2 w1 tid vr2 h2 = (rejected m, w1)" ..
  with b show "success out2 = False" "transactionId out2 = None" "settlements w2 = settlements w1" "w2 = w1"
    by (auto simp: rejected_simps)
qed

theorem C1_verified_task_is_write_once_witness:
  "(\<exists>out. map_of (tasks (sample_world\<lparr>tasks := [(''T1'', verified_task)]\<rparr>)) ''T1'' = Some verified_task \<and>
      verified_task ''verificationResult'' = Some (JBool False) \<and>
      verifyTask blockchainService sample_env (sample_world\<lparr>tasks := [(''T1'', verified_task)]\<rparr>) ''T1'' True ''cafe''
        = (out, sample_world\<lparr>tasks := [(''T1'', verified_task)]\<rparr>) \<and>
      success out = False \<and> transactionId out = None)
   \<and>
   (\<exists>out1 w1 out2.
      verifyTask blockchainService sample_env sample_world ''T1'' True ''cafe'' = (out1, w1) \<and> success out1 \<and>
      verifyTask blockchainService (sample_env\<lparr>now := 2000\<rparr>) w1 ''T1'' True ''cafe'' = (out2, w1) \<and>
      success out2 = False \<and> transactionId out2 = None \<and> settlements w1 = [mockTxId sample_env])"
proof (intro conjI)
  let ?w = "sample_world\<lparr>tasks := [(''T1'', verified_task)]\<rparr>"
  have a: "map_of (tasks ?w) ''T1'' = Some verified_task" by simp
  have b: "verified_task ''verificationResult'' = Some (JBool False)" by (simp add: verified_task_def)
  obtain out w' where r: "verifyTask blockchainService sample_env ?w ''T1'' True ''cafe'' = (out, w')"
    by (cases "verifyTask blockchainService sample_env ?w ''T1'' True ''cafe''")
  have b': "verified_task ''verificationResult'' \<noteq> None"
    and b'': "verified_task ''verificationResult'' \<noteq> Some JNull"
    by (simp_all add: b)
  have "success out = False \<and> transactionId out = None \<and> w' = ?w"
    using C1_verified_task_is_write_once [THEN conjunct1, THEN mp, OF conjI [OF a conjI [OF b' conjI [OF b'' r]]]]
    by simp
  with a b r show "\<exists>out. map_of (tasks ?w) ''T1'' = Some verified_task \<and>
      verified_task ''verificationResult'' = Some (JBool False) \<and>
      verifyTask blockchainService sample_env ?w ''T1'' True ''cafe'' = (out, ?w) \<and>
      success out = False \<and> transactionId out = None"
    by auto
next
  let ?e2 = "sample_env\<lparr>now := 2000\<rparr>"
  obtain out1 w1 where r1: "verifyTask blockchainService sample_env sample_world ''T1'' True ''cafe'' = (out1, w1)"
    by (cases "verifyTask blockchainService sample_env sample_world ''T1'' True ''cafe''")
  have s1: "success out1" and l1: "settlements w1 = [mockTxId sample_env]"
    using r1 by (auto simp: sample_first_run recorded_simps)
  obtain out2 w2 where r2: "verifyTask blockchainService ?e2 w1 ''T1'' True ''cafe'' = (out2, w2)"
    by (cases "verifyTask blockchainService ?e2 w1 ''T1'' True ''cafe''")
  have r1': "verifyTask (BlockchainService True) sample_env sample_world ''T1'' True ''cafe'' = (out1, w1)"
    using r1 by (simp add: blockchainService_def)
  have r2': "verifyTask (BlockchainService True) ?e2 w1 ''T1'' True ''cafe'' = (out2, w2)"
    using r2 by (simp add: blockchainService_def)
  have "success out2 = False \<and> transactionId out2 = None \<and> w2 = w1"
    using C1_verified_task_is_write_once [THEN conjunct2, THEN mp, OF conjI [OF r1' conjI [OF s1 r2']]]
    by simp
  with r1 s1 r2 l1 show "\<exists>out1 w1 out2.
      verifyTask blockchainService sample_env sample_world ''T1'' True ''cafe'' = (out1, w1) \<and> success out1 \<and>
      verifyTask blockchainService ?e2 w1 ''T1'' True ''cafe'' = (out2, w1) \<and>
      success out2 = False \<and> transactionId out2 = None \<and> settlements w1 = [mockTxId sample_env]"
    by auto
qed

text \<open>
  C2, as the code has it. The check of \<open>verificationResult\<close> reads the snapshot that
  \<open>get()\<close> returned and the later \<open>update()\<close> is unconditional; nothing ties the two
  together. When two runs on the same eligible task both read before either writes,
  and no store call fails, both create a settlement transaction, both updates are
  applied, the second over the first, so the second run's fields are the durable
  state, and both runs return \<open>success = true\<close> with their own transaction id.
\<close>

theorem C2_race_settles_twice:
  "svc_db svc \<Longrightarrow> svc_admin svc \<Longrightarrow> map_of (tasks w) tid = Some task \<Longrightarrow>
   task ''status'' = Some (JStr ''completed'') \<Longrightarrow>
   task ''verificationResult'' = None \<or> task ''verificationResult'' = Some JNull \<Longrightarrow>
   get_fault eA = None \<Longrightarrow> get_fault eB = None \<Longrightarrow> update_fault eA = None \<Longrightarrow> update_fault eB = None \<Longrightarrow>
   verifyTask_race svc w tid eA vrA hA eB vrB hB = (outA, outB, w') \<Longrightarrow>
     success outA \<and> transactionId outA = Some (mockTxId eA) \<and>
     success outB \<and> transactionId outB = Some (mockTxId eB) \<and>
     settlements w' = mockTxId eB # mockTxId eA # settlements w \<and>
     (\<exists>d. map_of (tasks w') tid = Some d \<and>
          d ''status'' = Some (JStr (if vrB then ''verified'' else ''rejected'')) \<and>
          d ''verificationResult'' = Some (JBool vrB) \<and>
          d ''verificationReportHash'' = Some (JStr hB) \<and>
          d ''verificationTx'' = Some (JStr (mockTxId eB)))"
proof -
  assume svc: "svc_db svc" "svc_admin svc"
    and task: "map_of (tasks w) tid = Some task" "task ''status'' = Some (JStr ''completed'')"
      "task ''verificationResult'' = None \<or> task ''verificationResult'' = Some JNull"
    and ok: "get_fault eA = None" "get_fault eB = None" "update_fault eA = None" "update_fault eB = None"
    and run: "verifyTask_race svc w tid eA vrA hA eB vrB hB = (outA, outB, w')"
  from verifyTask_race_eligible [OF svc task ok, of vrA hA vrB hB] run
  have outA: "outA = recorded tid (mockTxId eA) vrA" and outB: "outB = recorded tid (mockTxId eB) vrB"
    and w': "w' = w\<lparr>settlements := mockTxId eB # mockTxId eA # settlements w,
        tasks := AList.update tid
          (task ++ verification_fields eA vrA hA (mockTxId eA) ++ verification_fields eB vrB hB (mockTxId eB))
          (tasks w)\<rparr>"
    by simp_all
  let ?d = "task ++ verification_fields eA vrA hA (mockTxId eA) ++ verification_fields eB vrB hB (mockTxId eB)"
  have "map_of (tasks w') tid = Some ?d" by (simp add: w' update_conv')
  moreover have "?d ''status'' = Some (JStr (if vrB then ''verified'' else ''rejected''))"
    "?d ''verificationResult'' = Some (JBool vrB)"
    "?d ''verificationReportHash'' = Some (JStr hB)"
    "?d ''verificationTx'' = Some (JStr (mockTxId eB))"
    by (simp_all add: verification_fields_def map_add_def)
  ultimately show ?thesis
    by (simp add: outA outB w' recorded_simps)
qed

theorem C2_race_settles_twice_witness:
  "\<exists>outA outB w' d.
     map_of (tasks sample_world) ''T1'' = Some sample_task \<and>
     sample_task ''status'' = Some (JStr ''completed'') \<and> sample_task ''verificationResult'' = None \<and>
     verifyTask_race blockchainService sample_world ''T1'' sample_env True ''cafe''
       (sample_env\<lparr>now := 1001\<rparr>) True ''beef'' = (outA, outB, w') \<and>
     success outA \<and> success outB \<and>
     settlements w' = [mockTxId (sample_env\<lparr>now := 1001\<rparr>), mockTxId sample_env] \<and>
     map_of (tasks w') ''T1'' = Some d \<and> d ''verificationReportHash'' = Some (JStr ''beef'')"
proof -
  let ?eB = "sample_env\<lparr>now := 1001\<rparr>"
  let ?run = "verifyTask_race blockchainService sample_world ''T1'' sample_env True ''cafe'' ?eB True ''beef''"
  obtain outA outB w' where run: "?run = (outA, outB, w')" by (cases ?run)
  have svc: "svc_db blockchainService" "svc_admin blockchainService"
    by (simp_all add: blockchainService_def BlockchainService_def)
  have t: "map_of (tasks sample_world) ''T1'' = Some sample_task"
    "sample_task ''status'' = Some (JStr ''completed'')" "sample_task ''verificationResult'' = None"
    by (simp_all add: sample_world_def sample_task_def)
  have t3: "sample_task ''verificationResult'' = None \<or> sample_task ''verificationResult'' = Some JNull"
    using t(3) by simp
  have ok: "get_fault sample_env = None" "get_fault ?eB = None" "update_fault sample_env = None"
    "update_fault ?eB = None"
    by (simp_all add: sample_env_def)
  have s: "settlements sample_world = []" by (simp add: sample_world_def)
  from C2_race_settles_twice [OF svc t(1) t(2) t3 ok run] s
  obtain d where "success outA" "success outB"
    "settlements w' = [mockTxId ?eB, mockTxId sample_env]"
    "map_of (tasks w') ''T1'' = Some d" "d ''verificationReportHash'' = Some (JStr ''beef'')"
    by auto
  with run t show ?thesis by blast
qed

text \<open>
  C2 as stated fails: in the race of two runs on the sample task, one millisecond
  apart, both return \<open>success = true\<close> and two settlement transactions are created;
  neither run is rejected.
\<close>

theorem C2_race_both_recorded:
  "success (fst (verifyTask_race blockchainService sample_world ''T1'' sample_env True ''cafe''
       (sample_env\<lparr>now := 1001\<rparr>) True ''beef'')) \<and>
   success (fst (snd (verifyTask_race blockchainService sample_world ''T1'' sample_env True ''cafe''
       (sample_env\<lparr>now := 1001\<rparr>) True ''beef''))) \<and>
   settlements (snd (snd (verifyTask_race blockchainService sample_world ''T1'' sample_env True ''cafe''
       (sample_env\<lparr>now := 1001\<rparr>) True ''beef''))) = [''MOCK_TX_rt_abcde'', ''MOCK_TX_rs_abcde'']"
  by (simp add: verifyTask_race_def verifyTask_after_get_def task_doc_get_def verifyTask_resume_def
      task_doc_update_def createMockTransaction_def DEBUG_MODE_def blockchainService_def
      BlockchainService_def recorded_def sample_env_def sample_world_def sample_task_def Let_def
      mockTxId_def substring_def toString36.simps [of 1000] toString36.simps [of 1001]
      toString36.simps [of 27] digits36_def)

text \<open>
  C3. The resolution order of \<open>extractTaskId\<close>, first match winning.
  (1) A present, non-empty \<open>metadata.taskId\<close> is returned as it is, whatever the path
  and the store hold. (2) Otherwise, when the path reads \<open>pre @ task- @ tok @ rest\<close>
  with \<open>tok\<close> a non-empty alphanumeric run that \<open>rest\<close> does not continue, and no
  match starts earlier, the result is \<open>tok\<close>. (3) Otherwise, when no position of the
  path starts a match and the query is answered, the result is the id of a completed
  task whose completedAt is greatest among the completed tasks, if there is a completed
  task, and null if there is none. (4) Without a store handle the result is null.
\<close>

theorem C3_resolution_order:
  "(taskId md = Some t \<and> t \<noteq> [] \<longrightarrow> extractTaskId svc e w fp md = Some t) \<and>
   ((taskId md = None \<or> taskId md = Some []) \<and> fp = pre @ ''task-'' @ tok @ rest \<and>
      tok \<noteq> [] \<and> (\<forall>c\<in>set tok. alnum c) \<and> (rest = [] \<or> \<not> alnum (hd rest)) \<and>
      (\<forall>i<length pre. \<not> matches_at fp i)
    \<longrightarrow> extractTaskId svc e w fp md = Some tok) \<and>
   ((taskId md = None \<or> taskId md = Some []) \<and> (\<forall>i<length fp. \<not> matches_at fp i) \<and>
      svc_db svc \<and> query_fault e = None
    \<longrightarrow> (case extractTaskId svc e w fp md of
          Some k \<Rightarrow>
            (\<exists>d. (k, d) \<in> set (tasks w) \<and> is_completed d \<and>
               (\<forall>(k', d')\<in>set (tasks w).
                  is_completed d' \<longrightarrow> the (completedAt_of d') \<le> the (completedAt_of d)))
        | None \<Rightarrow> (\<forall>(k', d')\<in>set (tasks w). \<not> is_completed d'))) \<and>
   ((taskId md = None \<or> taskId md = Some []) \<and> (\<forall>i<length fp. \<not> matches_at fp i) \<and>
      \<not> svc_db svc
    \<longrightarrow> extractTaskId svc e w fp md = None)"
proof (intro conjI impI)
  assume "taskId md = Some t \<and> t \<noteq> []"
  then show "extractTaskId svc e w fp md = Some t"
    by (simp add: extractTaskId_metadata)
next
  assume "(taskId md = None \<or> taskId md = Some []) \<and> fp = pre @ ''task-'' @ tok @ rest \<and>
      tok \<noteq> [] \<and> (\<forall>c\<in>set tok. alnum c) \<and> (rest = [] \<or> \<not> alnum (hd rest)) \<and>
      (\<forall>i<length pre. \<not> matches_at fp i)"
  then show "extractTaskId svc e w fp md = Some tok"
    using extractTaskId_path [of md fp pre tok rest svc e w] by blast
next
  assume a: "(taskId md = None \<or> taskId md = Some []) \<and> (\<forall>i<length fp. \<not> matches_at fp i) \<and>
      svc_db svc \<and> query_fault e = None"
  then have eq: "extractTaskId svc e w fp md = map_option fst (most_recent (tasks w))"
    using extractTaskId_query [of md fp svc e w] by blast
  show "case extractTaskId svc e w fp md of
          Some k \<Rightarrow>
            (\<exists>d. (k, d) \<in> set (tasks w) \<and> is_completed d \<and>
               (\<forall>(k', d')\<in>set (tasks w).
                  is_completed d' \<longrightarrow> the (completedAt_of d') \<le> the (completedAt_of d)))
        | None \<Rightarrow> (\<forall>(k', d')\<in>set (tasks w). \<not> is_completed d')"
  proof (cases "most_recent (tasks w)")
    case None
    moreover from None have "\<forall>(k', d')\<in>set (tasks w). \<not> is_completed d'"
      by (simp only: most_recent_None_iff)
    ultimately show ?thesis unfolding eq by simp
  next
    case (Some p)
    obtain k d where p: "p = (k, d)" by (cases p)
    from most_recent_Some [of "tasks w" k d] Some p show ?thesis
      unfolding eq by auto
  qed
next
  assume "(taskId md = None \<or> taskId md = Some []) \<and> (\<forall>i<length fp. \<not> matches_at fp i) \<and>
      \<not> svc_db svc"
  then show "extractTaskId svc e w fp md = None"
    using extractTaskId_no_db [of md fp svc e w] by blast
qed

theorem C3_resolution_order_witness:
  "extractTaskId blockchainService sample_env sample_world ''logs/task-T2-run.log'' tagged_metadata
     = Some ''T1'' \<and>
   extractTaskId blockchainService sample_env (sample_world\<lparr>tasks := []\<rparr>) ''logs/task-ABC123-run.log''
       plain_metadata
     = Some ''ABC123'' \<and>
   extractTaskId blockchainService sample_env (sample_world\<lparr>tasks := three_tasks\<rparr>) ''logs/run.log''
       plain_metadata
     = Some ''T9'' \<and>
   extractTaskId (BlockchainService False) sample_env (sample_world\<lparr>tasks := three_tasks\<rparr>)
       ''logs/run.log'' plain_metadata
     = None"
proof (intro conjI)
  have "taskId tagged_metadata = Some ''T1'' \<and> ''T1'' \<noteq> []"
    by (simp add: tagged_metadata_def)
  then show "extractTaskId blockchainService sample_env sample_world ''logs/task-T2-run.log''
      tagged_metadata = Some ''T1''"
    by (rule C3_resolution_order [THEN conjunct1, THEN mp])
next
  have "(taskId plain_metadata = None \<or> taskId plain_metadata = Some []) \<and>
      ''logs/task-ABC123-run.log'' = ''logs/'' @ ''task-'' @ ''ABC123'' @ ''-run.log'' \<and>
      ''ABC123'' \<noteq> [] \<and> (\<forall>c\<in>set ''ABC123''. alnum c) \<and>
      (''-run.log'' = [] \<or> \<not> alnum (hd ''-run.log'')) \<and>
      (\<forall>i<length ''logs/''. \<not> matches_at ''logs/task-ABC123-run.log'' i)"
    by (simp add: plain_metadata_def alnum_def matches_at_def All_less_Suc)
  then show "extractTaskId blockchainService sample_env (sample_world\<lparr>tasks := []\<rparr>)
      ''logs/task-ABC123-run.log'' plain_metadata = Some ''ABC123''"
    by (rule C3_resolution_order [THEN conjunct2, THEN conjunct1, THEN mp])
next
  let ?w = "sample_world\<lparr>tasks := three_tasks\<rparr>"
  let ?r = "extractTaskId blockchainService sample_env ?w ''logs/run.log'' plain_metadata"
  have nomatch: "\<forall>i<length ''logs/run.log''. \<not> matches_at ''logs/run.log'' i"
    by (simp add: matches_at_def All_less_Suc)
  have "(taskId plain_metadata = None \<or> taskId plain_metadata = Some []) \<and>
      (\<forall>i<length ''logs/run.log''. \<not> matches_at ''logs/run.log'' i) \<and>
      svc_db blockchainService \<and> query_fault sample_env = None"
    using nomatch
    by (simp add: plain_metadata_def blockchainService_def BlockchainService_def sample_env_def)
  then have found: "case ?r of
      Some k \<Rightarrow>
        (\<exists>d. (k, d) \<in> set (tasks ?w) \<and> is_completed d \<and>
           (\<forall>(k', d')\<in>set (tasks ?w).
              is_completed d' \<longrightarrow> the (completedAt_of d') \<le> the (completedAt_of d)))
    | None \<Rightarrow> (\<forall>(k', d')\<in>set (tasks ?w). \<not> is_completed d')"
    by (rule C3_resolution_order [THEN conjunct2, THEN conjunct2, THEN conjunct1, THEN mp])
  show "?r = Some ''T9''"
  proof (cases ?r)
    case None
    with found show ?thesis
      by (simp add: three_tasks_def is_completed_def completedAt_of_def)
  next
    case (Some k)
    with found show ?thesis
      by (auto simp: three_tasks_def is_completed_def completedAt_of_def)
  qed
next
  have "(taskId plain_metadata = None \<or> taskId plain_metadata = Some []) \<and>
      (\<forall>i<length ''logs/run.log''. \<not> matches_at ''logs/run.log'' i) \<and>
      \<not> svc_db (BlockchainService False)"
    by (simp add: plain_metadata_def BlockchainService_def matches_at_def All_less_Suc)
  then show "extractTaskId (BlockchainService False) sample_env (sample_world\<lparr>tasks := three_tasks\<rparr>)
      ''logs/run.log'' plain_metadata = None"
    by (rule C3_resolution_order [THEN conjunct2, THEN conjunct2, THEN conjunct2, THEN mp])
qed

text \<open>
  C4. A task whose status is not \<open>completed\<close> (\<open>pending\<close>, say, or no status at
  all) is rejected by \<open>verifyTask\<close>: \<open>success = false\<close>, \<open>transactionId = null\<close>, no
  field of any task is changed and no settlement transaction is created.
\<close>

theorem C4_not_completed_is_rejected:
  "map_of (tasks w) tid = Some task \<Longrightarrow> task ''status'' \<noteq> Some (JStr ''completed'') \<Longrightarrow>
   verifyTask svc e w tid vr h = (out, w') \<Longrightarrow>
     success out = False \<and> transactionId out = None \<and>
     tasks w' = tasks w \<and> settlements w' = settlements w \<and> w' = w"
  using verifyTask_not_completed [of w tid task svc e vr h] by (auto simp: rejected_simps)

theorem C4_not_completed_is_rejected_witness:
  "map_of (tasks (sample_world\<lparr>tasks := [(''T1'', pending_task)]\<rparr>)) ''T1'' = Some pending_task \<and>
   pending_task ''status'' \<noteq> Some (JStr ''completed'') \<and>
   verifyTask blockchainService sample_env (sample_world\<lparr>tasks := [(''T1'', pending_task)]\<rparr>) ''T1'' True ''cafe''
     = (rejected (ErrorVerifyingTask (MustBeCompleted (Some (JStr ''pending'')))),
        sample_world\<lparr>tasks := [(''T1'', pending_task)]\<rparr>)"
proof -
  let ?w = "sample_world\<lparr>tasks := [(''T1'', pending_task)]\<rparr>"
  have a: "map_of (tasks ?w) ''T1'' = Some pending_task" by simp
  have b: "pending_task ''status'' \<noteq> Some (JStr ''completed'')" by (simp add: pending_task_def)
  obtain out w' where r: "verifyTask blockchainService sample_env ?w ''T1'' True ''cafe'' = (out, w')"
    by (cases "verifyTask blockchainService sample_env ?w ''T1'' True ''cafe''")
  from C4_not_completed_is_rejected [OF a b r] have "w' = ?w" by simp
  moreover have "out = rejected (ErrorVerifyingTask (MustBeCompleted (Some (JStr ''pending''))))"
    using r by (simp add: verifyTask_def verifyTask_after_get_def task_doc_get_def blockchainService_def
        BlockchainService_def sample_env_def verifyTask_resume_def pending_task_def)
  ultimately show ?thesis using a b r by simp
qed

text \<open>
  C5, as the code has it. The call of \<open>setMetadata\<close> stands in the \<open>try\<close> block of
  the handler with no handler of its own: when the download, the read and the write of
  the provenance record have succeeded and the tagging raises an error, the handler
  rethrows that error, whether or not its cleanup succeeds. The provenance record stays
  written; \<open>sendToExternalSystem\<close> is not reached, so no task is changed and no
  settlement transaction is created.
\<close>

theorem C5_tagging_failure_is_fatal:
  "prefix ''logs/'' (obj_name obj) \<Longrightarrow> download_fault e = None \<Longrightarrow>
   objects w (obj_name obj) = Some bytes \<Longrightarrow> read_fault e = None \<Longrightarrow> add_fault e = None \<Longrightarrow>
   setMetadata_fault e = Some m \<Longrightarrow> processLogFileUpload sha e w obj = (r, w') \<Longrightarrow>
     r = Inl (Collaborator m) \<and>
     file_hashes w' = file_hashes w @ [fileMetadata e obj (sha bytes)] \<and>
     tasks w' = tasks w \<and> settlements w' = settlements w \<and> object_tags w' = object_tags w"
proof -
  assume p: "prefix ''logs/'' (obj_name obj)"
    and ok: "download_fault e = None" "objects w (obj_name obj) = Some bytes"
      "read_fault e = None" "add_fault e = None"
    and tag: "setMetadata_fault e = Some m"
    and run: "processLogFileUpload sha e w obj = (r, w')"
  let ?tmp = "tempFilePath e (basename (obj_name obj))"
  let ?w0 = "w\<lparr>files := (files w)(?tmp \<mapsto> bytes),
        file_hashes := file_hashes w @ [fileMetadata e obj (sha bytes)]\<rparr>"
  have t: "processLogFileUpload_try sha e w obj = (Inl (Collaborator m), ?w0)"
    using ok tag by (rule tagging_failure_try)
  from processLogFileUpload_rethrows [OF p t] run
  have r: "r = Inl (Collaborator m)"
    and w': "w' = (if existsSync ?w0 ?tmp
      then (case unlinkSync e ?w0 ?tmp of Inl cleanupError \<Rightarrow> ?w0 | Inr w'' \<Rightarrow> w'')
      else ?w0)"
    by simp_all
  have "file_hashes w' = file_hashes ?w0" "tasks w' = tasks ?w0" "settlements w' = settlements ?w0"
    "object_tags w' = object_tags ?w0"
    unfolding w' by (rule cleanup_frame)+
  with r show ?thesis by simp
qed

theorem C5_tagging_failure_is_fatal_witness:
  "\<exists>w'. prefix ''logs/'' (obj_name sample_object) \<and>
     objects sample_world (obj_name sample_object) = Some ''bytes'' \<and>
     processLogFileUpload (\<lambda>b. ''cafe'') (sample_env\<lparr>setMetadata_fault := Some ''EACCES''\<rparr>)
       sample_world sample_object = (Inl (Collaborator ''EACCES''), w') \<and>
     length (file_hashes w') = 1 \<and> tasks w' = tasks sample_world \<and> settlements w' = []"
proof -
  let ?e = "sample_env\<lparr>setMetadata_fault := Some ''EACCES''\<rparr>"
  let ?run = "processLogFileUpload (\<lambda>b. ''cafe'') ?e sample_world sample_object"
  obtain r w' where run: "?run = (r, w')" by (cases ?run)
  have p: "prefix ''logs/'' (obj_name sample_object)" by (simp add: sample_object_def)
  have o: "objects sample_world (obj_name sample_object) = Some ''bytes''"
    by (simp add: sample_object_def sample_world_def)
  have f: "download_fault ?e = None" "read_fault ?e = None" "add_fault ?e = None"
    "setMetadata_fault ?e = Some ''EACCES''"
    by (simp_all add: sample_env_def)
  from C5_tagging_failure_is_fatal [OF p f(1) o f(2) f(3) f(4) run]
  have "r = Inl (Collaborator ''EACCES'') \<and> length (file_hashes w') = 1 \<and>
      tasks w' = tasks sample_world \<and> settlements w' = []"
    by (simp add: sample_world_def)
  with run p o show ?thesis by blast
qed

text \<open>
  C5 as stated fails: with the tagging step failing, the sample upload ends with the
  rethrown error, its task still \<open>completed\<close> and unverified and no settlement made,
  where the same upload without the failure verifies the task.
\<close>

theorem C5_tagging_failure_aborts:
  "fst (processLogFileUpload (\<lambda>b. ''cafe'') (sample_env\<lparr>setMetadata_fault := Some ''EACCES''\<rparr>)
         sample_world sample_object) = Inl (Collaborator ''EACCES'') \<and>
   tasks (snd (processLogFileUpload (\<lambda>b. ''cafe'') (sample_env\<lparr>setMetadata_fault := Some ''EACCES''\<rparr>)
         sample_world sample_object)) = [(''T1'', sample_task)] \<and>
   settlements (snd (processLogFileUpload (\<lambda>b. ''cafe'') (sample_env\<lparr>setMetadata_fault := Some ''EACCES''\<rparr>)
         sample_world sample_object)) = [] \<and>
   length (file_hashes (snd (processLogFileUpload (\<lambda>b. ''cafe'')
         (sample_env\<lparr>setMetadata_fault := Some ''EACCES''\<rparr>) sample_world sample_object))) = 1 \<and>
   settlements (snd (processLogFileUpload (\<lambda>b. ''cafe'') sample_env sample_world sample_object))
     = [''MOCK_TX_rs_abcde'']"
  by (simp add: pipeline_defs sample_env_def sample_world_def sample_object_def sample_task_def
      Let_def mockTxId_def substring_def toString36.simps [of 1000] toString36.simps [of 27] digits36_def)




text \<open>
  C7. With no task id in the metadata and no match in the path, a query that raises
  an error leaves the \<open>try\<close> block of \<open>extractTaskId\<close> as an exception, the \<open>catch\<close>
  block turns it into null, and the result is the one obtained when the query is
  answered and there is no task; the caller \<open>sendToExternalSystem\<close> returns the same
  outcome in both cases and changes nothing.
\<close>

theorem C7_query_error_is_not_found:
  "(taskId md = None \<or> taskId md = Some []) \<Longrightarrow> \<forall>i<length fp. \<not> matches_at fp i \<Longrightarrow>
   svc_db svc \<Longrightarrow> query_fault e = Some m \<Longrightarrow>
     extractTaskId_try svc e w fp md = Inl (Collaborator m) \<and>
     extractTaskId svc e w fp md = None \<and>
     extractTaskId svc (e\<lparr>query_fault := None\<rparr>) (w\<lparr>tasks := []\<rparr>) fp md = None \<and>
     sendToExternalSystem e w h fp md = (rejected CouldNotDetermineTaskId, w) \<and>
     fst (sendToExternalSystem (e\<lparr>query_fault := None\<rparr>) (w\<lparr>tasks := []\<rparr>) h fp md)
       = fst (sendToExternalSystem e w h fp md)"
proof -
  assume md: "taskId md = None \<or> taskId md = Some []"
    and nomatch: "\<forall>i<length fp. \<not> matches_at fp i"
    and db: "svc_db svc" and err: "query_fault e = Some m"
  have t: "\<And>s. svc_db s \<Longrightarrow> extractTaskId_try s e w fp md = Inl (Collaborator m)"
    using extractTaskId_try_query_error [OF md nomatch _ err] by blast
  have n: "\<And>s. svc_db s \<Longrightarrow> extractTaskId s e w fp md = None"
    by (simp add: extractTaskId_def t)
  have q: "\<And>s. svc_db s \<Longrightarrow> extractTaskId s (e\<lparr>query_fault := None\<rparr>) (w\<lparr>tasks := []\<rparr>) fp md = None"
    using extractTaskId_query [OF md nomatch, of _ "e\<lparr>query_fault := None\<rparr>" "w\<lparr>tasks := []\<rparr>"]
    by simp
  have b: "svc_db blockchainService" by (simp add: blockchainService_def BlockchainService_def)
  show ?thesis
    using t [OF db] n [OF db] q [OF db] n [OF b] q [OF b]
    by (simp add: sendToExternalSystem_def)
qed

theorem C7_query_error_is_not_found_witness:
  "extractTaskId_try blockchainService (sample_env\<lparr>query_fault := Some ''UNAVAILABLE''\<rparr>)
     (sample_world\<lparr>tasks := three_tasks\<rparr>) ''logs/run.log'' plain_metadata
     = Inl (Collaborator ''UNAVAILABLE'') \<and>
   extractTaskId blockchainService (sample_env\<lparr>query_fault := Some ''UNAVAILABLE''\<rparr>)
     (sample_world\<lparr>tasks := three_tasks\<rparr>) ''logs/run.log'' plain_metadata = None \<and>
   sendToExternalSystem (sample_env\<lparr>query_fault := Some ''UNAVAILABLE''\<rparr>)
     (sample_world\<lparr>tasks := three_tasks\<rparr>) ''cafe'' ''logs/run.log'' plain_metadata
     = (rejected CouldNotDetermineTaskId, sample_world\<lparr>tasks := three_tasks\<rparr>)"
proof -
  let ?e = "sample_env\<lparr>query_fault := Some ''UNAVAILABLE''\<rparr>"
  have md: "taskId plain_metadata = None \<or> taskId plain_metadata = Some []"
    by (simp add: plain_metadata_def)
  have nomatch: "\<forall>i<length ''logs/run.log''. \<not> matches_at ''logs/run.log'' i"
    by (simp add: matches_at_def All_less_Suc)
  have db: "svc_db blockchainService"
    by (simp add: blockchainService_def BlockchainService_def)
  have err: "query_fault ?e = Some ''UNAVAILABLE''" by simp
  from C7_query_error_is_not_found [OF md nomatch db err, of "sample_world\<lparr>tasks := three_tasks\<rparr>" "''cafe''"]
  show ?thesis by simp
qed

text \<open>
  C8, as the code has it. Every call of \<open>createMockTransaction\<close> returns an id and
  touches nothing outside the process (the trace entry is the only change to the state
  of the model). The ids of two calls are equal exactly when the calls read the same
  millisecond from \<open>Date.now()\<close> and the same characters 2 to 6 of
  \<open>Math.random().toString(36)\<close>: ids differ whenever the timestamps or the random
  suffixes differ, and only then.
\<close>

theorem C8_mock_ids_equal_iff:
  "(fst (createMockTransaction e1 w1 tid1 vr1 h1) = fst (createMockTransaction e2 w2 tid2 vr2 h2)
      \<longleftrightarrow> now e1 = now e2 \<and> substring 2 7 (random36 e1) = substring 2 7 (random36 e2)) \<and>
   fst (createMockTransaction e1 w1 tid1 vr1 h1)
     = ''MOCK_TX_'' @ toString36 (now e1) @ ''_'' @ take 5 (drop 2 (random36 e1)) \<and>
   snd (createMockTransaction e1 w1 tid1 vr1 h1)
     = w1\<lparr>settlements := fst (createMockTransaction e1 w1 tid1 vr1 h1) # settlements w1\<rparr>"
  by (simp add: createMockTransaction_def mockTxId_eq_iff) (simp add: mockTxId_def substring_def)

text \<open>
  C8 as stated fails: two calls in the same millisecond whose random draws differ only
  after the fifth digit of the fraction return the same id.
\<close>

theorem C8_mock_ids_collide:
  "random36 sample_env \<noteq> random36 (sample_env\<lparr>random36 := ''0.abcdexyz''\<rparr>) \<and>
   fst (createMockTransaction sample_env sample_world ''T1'' True ''cafe'')
     = fst (createMockTransaction (sample_env\<lparr>random36 := ''0.abcdexyz''\<rparr>) sample_world ''T2'' True ''beef'') \<and>
   fst (createMockTransaction sample_env sample_world ''T1'' True ''cafe'') = ''MOCK_TX_rs_abcde''"
  by (simp add: createMockTransaction_def mockTxId_def substring_def sample_env_def
      toString36.simps [of 1000] toString36.simps [of 27] digits36_def)

text \<open>
  C9. For every request on a path \<open>/databases/{database}/documents/file_hashes/...\<close>,
  read or write, the rules allow it exactly when \<open>request.auth\<close> is not null; every
  request on any other path is denied, read or write, authenticated or not.
\<close>

theorem C9_rules:
  "(req_path r = ''databases'' # db # ''documents'' # ''file_hashes'' # rest
      \<longrightarrow> (allowed r \<longleftrightarrow> req_auth r \<noteq> None)) \<and>
   ((\<forall>db rest. req_path r \<noteq> ''databases'' # db # ''documents'' # ''file_hashes'' # rest)
      \<longrightarrow> \<not> allowed r)"
  by (auto simp: allowed_iff)

theorem C9_rules_witness:
  "allowed \<lparr>req_access = Write, req_path = [''databases'', ''(default)'', ''documents'', ''file_hashes'', ''h1''],
            req_auth = Some ''alice''\<rparr> \<and>
   \<not> allowed \<lparr>req_access = Read, req_path = [''databases'', ''(default)'', ''documents'', ''file_hashes'', ''h1''],
            req_auth = None\<rparr> \<and>
   \<not> allowed \<lparr>req_access = Read, req_path = [''databases'', ''(default)'', ''documents'', ''tasks'', ''T1''],
            req_auth = Some ''alice''\<rparr>"
proof (intro conjI)
  let ?p = "[''databases'', ''(default)'', ''documents'', ''file_hashes'', ''h1'']"
  let ?a = "\<lparr>req_access = Write, req_path = ?p, req_auth = Some ''alice''\<rparr>"
  let ?b = "\<lparr>req_access = Read, req_path = ?p, req_auth = None\<rparr>"
  let ?c = "\<lparr>req_access = Read, req_path = [''databases'', ''(default)'', ''documents'', ''tasks'', ''T1''],
            req_auth = Some ''alice''\<rparr>"
  have "req_path ?a = ''databases'' # ''(default)'' # ''documents'' # ''file_hashes'' # [''h1'']" by simp
  from C9_rules [THEN conjunct1, THEN mp, OF this] show "allowed ?a" by simp
  have "req_path ?b = ''databases'' # ''(default)'' # ''documents'' # ''file_hashes'' # [''h1'']" by simp
  from C9_rules [THEN conjunct1, THEN mp, OF this] show "\<not> allowed ?b" by simp
  have "\<forall>db rest. req_path ?c \<noteq> ''databases'' # db # ''documents'' # ''file_hashes'' # rest" by simp
  from C9_rules [THEN conjunct2, THEN mp, OF this] show "\<not> allowed ?c" .
qed

text \<open>
  C10. \<open>sendToExternalSystem\<close> either gives up on the task id or calls
  \<open>verifyTask\<close> with the constant \<open>true\<close> as verification result, so a
  run of the upload handler leaves every task document as it was or leaves it with
  \<open>status = 'verified'\<close> and \<open>verificationResult = true\<close>; a document found with
  status \<open>rejected\<close> after the run had that status, and every other field, before it.
\<close>

theorem C10_pipeline_only_verifies:
  "((\<exists>tid. sendToExternalSystem e w h fp md = verifyTask blockchainService e w tid True h) \<or>
    sendToExternalSystem e w h fp md = (rejected CouldNotDetermineTaskId, w)) \<and>
   (processLogFileUpload sha e w obj = (r, w') \<longrightarrow>
     (map_of (tasks w') k = map_of (tasks w) k \<or>
      (\<exists>d. map_of (tasks w') k = Some d \<and> d ''status'' = Some (JStr ''verified'') \<and>
           d ''verificationResult'' = Some (JBool True))) \<and>
     (\<forall>d. map_of (tasks w') k = Some d \<and> d ''status'' = Some (JStr ''rejected'')
           \<longrightarrow> map_of (tasks w) k = Some d))"
proof (intro conjI impI)
  show "(\<exists>tid. sendToExternalSystem e w h fp md = verifyTask blockchainService e w tid True h) \<or>
    sendToExternalSystem e w h fp md = (rejected CouldNotDetermineTaskId, w)"
    by (auto simp: sendToExternalSystem_def split: option.splits)
next
  assume run: "processLogFileUpload sha e w obj = (r, w')"
  have main: "map_of (tasks w') k = map_of (tasks w) k \<or>
      (\<exists>d. map_of (tasks w') k = Some d \<and> d ''status'' = Some (JStr ''verified'') \<and>
           d ''verificationResult'' = Some (JBool True))"
    using processLogFileUpload_tasks [OF run]
    by (auto simp: update_conv' verification_fields_status)
  then show "map_of (tasks w') k = map_of (tasks w) k \<or>
      (\<exists>d. map_of (tasks w') k = Some d \<and> d ''status'' = Some (JStr ''verified'') \<and>
           d ''verificationResult'' = Some (JBool True))" .
  from main show "\<forall>d. map_of (tasks w') k = Some d \<and> d ''status'' = Some (JStr ''rejected'')
           \<longrightarrow> map_of (tasks w) k = Some d"
    by auto
qed

theorem C10_pipeline_only_verifies_witness:
  "\<exists>w' d. processLogFileUpload (\<lambda>b. ''cafe'') sample_env sample_world sample_object = (Inr (Some ''cafe''), w') \<and>
     map_of (tasks sample_world) ''T1'' = Some sample_task \<and>
     sample_task ''status'' = Some (JStr ''completed'') \<and>
     map_of (tasks w') ''T1'' = Some d \<and> d ''status'' = Some (JStr ''verified'') \<and>
     d ''verificationResult'' = Some (JBool True)"
proof -
  let ?run = "processLogFileUpload (\<lambda>b. ''cafe'') sample_env sample_world sample_object"
  obtain r w' where run: "?run = (r, w')" by (cases ?run)
  have r: "r = Inr (Some ''cafe'')" using sample_pipeline_run(1) run by simp
  have old: "map_of (tasks sample_world) ''T1'' = Some sample_task"
    by (simp add: sample_world_def)
  have st: "sample_task ''status'' = Some (JStr ''completed'')"
    by (simp add: sample_task_def)
  have new: "map_option (\<lambda>d. d ''status'') (map_of (tasks w') ''T1'') = Some (Some (JStr ''verified''))"
    using sample_pipeline_run(2) run by simp
  have "map_of (tasks w') ''T1'' \<noteq> map_of (tasks sample_world) ''T1''"
    using new old st by auto
  with C10_pipeline_only_verifies [THEN conjunct2, THEN mp, OF run, THEN conjunct1, of "''T1''"]
  obtain d where "map_of (tasks w') ''T1'' = Some d" "d ''status'' = Some (JStr ''verified'')"
    "d ''verificationResult'' = Some (JBool True)" by blast
  with run r old st show ?thesis by blast
qed

end
